theory Spec2Isabelle
  imports Complex_Main "HOL-Library.AList" "HOL-Library.Sublist"
begin

section \<open>Secondary page script: the countdown timer (src/js/scripts.js)\<close>

text \<open>
  \<^verbatim>\<open>Date.prototype.getTime\<close> returns an integral number of milliseconds, so the
  clock readings are modelled as \<open>int\<close>. JavaScript's \<^verbatim>\<open>%\<close> is the truncated
  remainder: its sign follows the dividend.
\<close>

definition js_rem :: "int \<Rightarrow> int \<Rightarrow> int" where
  "js_rem a b = (if a < 0 then - ((- a) mod \<bar>b\<bar>) else a mod \<bar>b\<bar>)"

text \<open>
  \<^verbatim>\<open>Math.floor(x / y)\<close> on integral operands of this size: the floor of the exact
  quotient.
\<close>

definition floor_div :: "int \<Rightarrow> int \<Rightarrow> int" where
  "floor_div x y = \<lfloor>real_of_int x / real_of_int y\<rfloor>"

definition digit_char :: "nat \<Rightarrow> char" where
  "digit_char d = ''0123456789'' ! (d mod 10)"

fun nat_toString :: "nat \<Rightarrow> string" where
  "nat_toString n =
     (if n < 10 then [digit_char n] else nat_toString (n div 10) @ [digit_char (n mod 10)])"

declare nat_toString.simps [simp del]

text \<open>\<^verbatim>\<open>Number.prototype.toString\<close> on an integral value: a minus sign, then the digits.\<close>

definition toString :: "int \<Rightarrow> string" where
  "toString i = (if i < 0 then CHR ''-'' # nat_toString (nat (- i)) else nat_toString (nat i))"

text \<open>\<^verbatim>\<open>String.prototype.padStart\<close> with a one-character filler.\<close>

definition padStart :: "nat \<Rightarrow> char \<Rightarrow> string \<Rightarrow> string" where
  "padStart n c s = replicate (n - length s) c @ s"

text \<open>The two decimal digits of a value from 0 to 99.\<close>

definition two_digits :: "int \<Rightarrow> string" where
  "two_digits v = [digit_char (nat v div 10), digit_char (nat v mod 10)]"

record countdown =
  hours :: int
  minutes :: int
  seconds :: int
  hours_text :: string
  minutes_text :: string
  seconds_text :: string

text \<open>
  \<open>updateCountdown now tomorrow\<close>: \<open>now\<close> is the first clock reading, \<open>tomorrow\<close> the
  epoch time of the local midnight that follows the second one (what
  \<^verbatim>\<open>setDate(getDate() + 1); setHours(0, 0, 0, 0)\<close> leaves in the Date object). The
  result holds the three numbers and the three strings written into the document.
\<close>

definition updateCountdown :: "int \<Rightarrow> int \<Rightarrow> countdown" where
  "updateCountdown now tomorrow =
     (let distance = tomorrow - now;
          h = floor_div (js_rem distance (1000 * 60 * 60 * 24)) (1000 * 60 * 60);
          m = floor_div (js_rem distance (1000 * 60 * 60)) (1000 * 60);
          s = floor_div (js_rem distance (1000 * 60)) 1000
      in \<lparr> hours = h, minutes = m, seconds = s,
           hours_text = padStart 2 (CHR ''0'') (toString h),
           minutes_text = padStart 2 (CHR ''0'') (toString m),
           seconds_text = padStart 2 (CHR ''0'') (toString s) \<rparr>)"

section \<open>Landing-page enhancer: configuration (src/unnamed/part_000)\<close>

definition MAX_CONCURRENT_ANIMATIONS :: nat where
  "MAX_CONCURRENT_ANIMATIONS = 3"

definition FORM_LOAD_TIMEOUT :: int where
  "FORM_LOAD_TIMEOUT = 10000"

definition SKELETON_MIN_DISPLAY :: int where
  "SKELETON_MIN_DISPLAY = 800"

section \<open>PerformanceMonitor and AnimationManager\<close>

text \<open>A \<^verbatim>\<open>classList\<close> is an ordered set of tokens.\<close>

definition classList_add :: "string \<Rightarrow> string list \<Rightarrow> string list" where
  "classList_add c cs = (if c \<in> set cs then cs else cs @ [c])"

definition classList_remove :: "string \<Rightarrow> string list \<Rightarrow> string list" where
  "classList_remove c cs = removeAll c cs"

definition classList_contains :: "string list \<Rightarrow> string \<Rightarrow> bool" where
  "classList_contains cs c = (c \<in> set cs)"

text \<open>
  The objects stored in the animation registry. The animation manager stores DOM
  elements there; \<open>has_style\<close> and \<open>has_pause\<close> say whether the object has a
  \<^verbatim>\<open>style\<close> property and a \<^verbatim>\<open>pause\<close> method, \<open>animationId\<close> is
  \<^verbatim>\<open>dataset.animationId\<close>.
\<close>

record element =
  elem_id :: nat
  animationId :: string
  has_style :: bool
  has_pause :: bool

text \<open>
  JavaScript numbers are IEEE doubles. A computed number is a finite value, an infinity
  or not-a-number; the two zeros are not told apart. Comparisons are exact and are
  false when an operand is not a number.
\<close>

datatype double = Finite real | PosInf | NegInf | NaN

fun d_less :: "double \<Rightarrow> double \<Rightarrow> bool" where
  "d_less (Finite x) (Finite y) = (x < y)"
| "d_less (Finite x) PosInf = True"
| "d_less NegInf (Finite y) = True"
| "d_less NegInf PosInf = True"
| "d_less _ _ = False"

definition d_ge :: "double \<Rightarrow> double \<Rightarrow> bool" where
  "d_ge a b = (a \<noteq> NaN \<and> b \<noteq> NaN \<and> \<not> d_less a b)"

text \<open>
  The four arithmetic operations round their results. What they return is a parameter
  of the model: the properties of the frame-rate sampler hold whatever they compute.
\<close>

record float_arith =
  fl_add :: "double \<Rightarrow> double \<Rightarrow> double"
  fl_sub :: "double \<Rightarrow> double \<Rightarrow> double"
  fl_mul :: "double \<Rightarrow> double \<Rightarrow> double"
  fl_div :: "double \<Rightarrow> double \<Rightarrow> double"

text \<open>
  The operations without rounding error: what the double operations return whenever
  the exact result is a double. They serve to run the sampler on such inputs.
\<close>

fun d_neg :: "double \<Rightarrow> double" where
  "d_neg (Finite x) = Finite (- x)"
| "d_neg PosInf = NegInf"
| "d_neg NegInf = PosInf"
| "d_neg NaN = NaN"

fun exact_add :: "double \<Rightarrow> double \<Rightarrow> double" where
  "exact_add (Finite x) (Finite y) = Finite (x + y)"
| "exact_add NaN b = NaN"
| "exact_add a NaN = NaN"
| "exact_add PosInf NegInf = NaN"
| "exact_add NegInf PosInf = NaN"
| "exact_add PosInf b = PosInf"
| "exact_add NegInf b = NegInf"
| "exact_add a PosInf = PosInf"
| "exact_add a NegInf = NegInf"

definition d_sgn :: "double \<Rightarrow> int" where
  "d_sgn a = (case a of Finite x \<Rightarrow> (if x < 0 then - 1 else 1) | PosInf \<Rightarrow> 1 | NegInf \<Rightarrow> - 1 | NaN \<Rightarrow> 0)"

definition signed_inf :: "int \<Rightarrow> double" where
  "signed_inf k = (if k < 0 then NegInf else PosInf)"

fun exact_mul :: "double \<Rightarrow> double \<Rightarrow> double" where
  "exact_mul (Finite x) (Finite y) = Finite (x * y)"
| "exact_mul NaN b = NaN"
| "exact_mul a NaN = NaN"
| "exact_mul a b =
     (if a = Finite 0 \<or> b = Finite 0 then NaN else signed_inf (d_sgn a * d_sgn b))"

fun exact_div :: "double \<Rightarrow> double \<Rightarrow> double" where
  "exact_div (Finite x) (Finite y) =
     (if y \<noteq> 0 then Finite (x / y) else if x = 0 then NaN else signed_inf (d_sgn (Finite x)))"
| "exact_div NaN b = NaN"
| "exact_div a NaN = NaN"
| "exact_div (Finite x) b = Finite 0"
| "exact_div a (Finite y) = signed_inf (d_sgn a * d_sgn (Finite y))"
| "exact_div a b = NaN"

definition exact_arith :: float_arith where
  "exact_arith = \<lparr> fl_add = exact_add, fl_sub = (\<lambda>a b. exact_add a (d_neg b)),
                    fl_mul = exact_mul, fl_div = exact_div \<rparr>"

text \<open>
  The monitor (fields \<open>metrics_fps\<close> to \<open>animationRegistry\<close>) together with the part of
  the document it and the animation manager write: the class list of the body, the
  \<^verbatim>\<open>style.animationPlayState\<close> of each element, and the elements whose
  \<^verbatim>\<open>pause()\<close> was called, in call order. The registry is a JavaScript
  \<^verbatim>\<open>Map\<close>: an association list with distinct keys in insertion order. Time stamps
  are what \<^verbatim>\<open>performance.now()\<close> returns, finite doubles, each given by its value;
  the frame rate is a computed number.
\<close>

record page =
  metrics_fps :: double
  metrics_animationsRunning :: nat
  frameCount :: nat
  lastFrameTime :: real
  animationRegistry :: "(string \<times> element) list"
  body_classList :: "string list"
  animationPlayState :: "nat \<rightharpoonup> string"
  pause_calls :: "nat list"

text \<open>The constructor, at time \<open>t\<close>, on a document whose body has the classes \<open>cs\<close>.\<close>

definition new_page :: "real \<Rightarrow> string list \<Rightarrow> page" where
  "new_page t cs =
     \<lparr> metrics_fps = Finite 60, metrics_animationsRunning = 0, frameCount = 0, lastFrameTime = t,
       animationRegistry = [], body_classList = cs, animationPlayState = Map.empty,
       pause_calls = [] \<rparr>"

text \<open>
  \<^verbatim>\<open>Math.round\<close>: the nearest integer, halves rounded up; exact, and the identity on
  the infinities and on not-a-number.
\<close>

fun Math_round :: "double \<Rightarrow> double" where
  "Math_round (Finite x) = Finite (of_int \<lfloor>x + 1 / 2\<rfloor>)"
| "Math_round d = d"

definition reduceQuality :: "page \<Rightarrow> page" where
  "reduceQuality p = p\<lparr>body_classList := classList_add ''reduce-animations'' (body_classList p)\<rparr>"

definition restoreQuality :: "page \<Rightarrow> page" where
  "restoreQuality p = p\<lparr>body_classList := classList_remove ''reduce-animations'' (body_classList p)\<rparr>"

text \<open>
  One animation-frame callback at time \<open>now\<close> (the value of \<^verbatim>\<open>performance.now()\<close>),
  with the arithmetic \<open>ar\<close>. The frame counter is a whole number. The callback requests
  the next frame itself; each call of \<open>measureFPS\<close> is one frame.
\<close>

definition measureFPS :: "float_arith \<Rightarrow> real \<Rightarrow> page \<Rightarrow> page" where
  "measureFPS ar now p =
     (let p1 = p\<lparr>frameCount := frameCount p + 1\<rparr> in
      if d_ge (Finite now) (fl_add ar (Finite (lastFrameTime p1)) (Finite 1000)) then
        (let p2 = p1\<lparr>metrics_fps :=
                       Math_round (fl_div ar
                         (fl_mul ar (Finite (real (frameCount p1))) (Finite 1000))
                         (fl_sub ar (Finite now) (Finite (lastFrameTime p1)))),
                     frameCount := 0, lastFrameTime := now\<rparr>
         in if d_less (metrics_fps p2) (Finite 30) then reduceQuality p2
            else if d_less (Finite 50) (metrics_fps p2) then restoreQuality p2
            else p2)
      else p1)"

text \<open>\<open>sampled ar now p\<close>: the call \<open>measureFPS ar now p\<close> closes a measurement window.\<close>

definition sampled :: "float_arith \<Rightarrow> real \<Rightarrow> page \<Rightarrow> bool" where
  "sampled ar now p = d_ge (Finite now) (fl_add ar (Finite (lastFrameTime p)) (Finite 1000))"

definition pauseAnimation :: "string \<Rightarrow> page \<Rightarrow> page" where
  "pauseAnimation k p =
     (let p1 = (case map_of (animationRegistry p) k of
                  Some a \<Rightarrow> if has_pause a then p\<lparr>pause_calls := pause_calls p @ [elem_id a]\<rparr> else p
                | None \<Rightarrow> p)
      in p1\<lparr>animationRegistry := AList.delete k (animationRegistry p1)\<rparr>)"

text \<open>
  On an empty registry \<^verbatim>\<open>keys().next().value\<close> is \<^verbatim>\<open>undefined\<close>, which is
  no key of the registry: pausing it changes nothing.
\<close>

definition registerAnimation :: "string \<Rightarrow> element \<Rightarrow> page \<Rightarrow> page" where
  "registerAnimation k a p =
     (let p1 = (if length (animationRegistry p) \<ge> MAX_CONCURRENT_ANIMATIONS then
                  (case animationRegistry p of
                     [] \<Rightarrow> p
                   | (oldest, _) # _ \<Rightarrow> pauseAnimation oldest p)
                else p);
          p2 = p1\<lparr>animationRegistry := AList.update k a (animationRegistry p1)\<rparr>
      in p2\<lparr>metrics_animationsRunning := length (animationRegistry p2)\<rparr>)"

datatype monitor_call = Register string element | Pause string

fun apply_call :: "monitor_call \<Rightarrow> page \<Rightarrow> page" where
  "apply_call (Register k a) p = registerAnimation k a p"
| "apply_call (Pause k) p = pauseAnimation k p"

definition monitor_calls :: "monitor_call list \<Rightarrow> page \<Rightarrow> page" where
  "monitor_calls cs p = fold apply_call cs p"

text \<open>The two methods of the animation manager, and its intersection callback.\<close>

definition AnimationManager_pauseAnimation :: "element \<Rightarrow> string \<Rightarrow> page \<Rightarrow> page" where
  "AnimationManager_pauseAnimation el k p =
     (if has_style el then
        pauseAnimation k (p\<lparr>animationPlayState := (animationPlayState p)(elem_id el \<mapsto> ''paused'')\<rparr>)
      else p)"

definition AnimationManager_resumeAnimation :: "element \<Rightarrow> string \<Rightarrow> page \<Rightarrow> page" where
  "AnimationManager_resumeAnimation el k p =
     (if has_style el then
        (if metrics_animationsRunning p < MAX_CONCURRENT_ANIMATIONS then
           registerAnimation k el
             (p\<lparr>animationPlayState := (animationPlayState p)(elem_id el \<mapsto> ''running'')\<rparr>)
         else p)
      else p)"

text \<open>An intersection entry: the target and \<^verbatim>\<open>isIntersecting\<close>.\<close>

fun visibility_entry :: "element \<times> bool \<Rightarrow> page \<Rightarrow> page" where
  "visibility_entry (el, isIntersecting) p =
     (if isIntersecting then AnimationManager_resumeAnimation el (animationId el) p
      else AnimationManager_pauseAnimation el (animationId el) p)"

definition visibility_callback :: "(element \<times> bool) list \<Rightarrow> page \<Rightarrow> page" where
  "visibility_callback entries p = fold visibility_entry entries p"

text \<open>The registry as a \<^verbatim>\<open>Map\<close> within the animation budget.\<close>

definition registry_ok :: "page \<Rightarrow> bool" where
  "registry_ok p = (distinct (map fst (animationRegistry p))
                    \<and> length (animationRegistry p) \<le> MAX_CONCURRENT_ANIMATIONS)"

text \<open>Registering a list of identifiers and objects, one call each, in order.\<close>

definition register_all :: "(string \<times> element) list \<Rightarrow> page \<Rightarrow> page" where
  "register_all kas p = fold (\<lambda>(k, a). registerAnimation k a) kas p"

text \<open>An HTML element that is not a media element: it has a style and no \<^verbatim>\<open>pause\<close>.\<close>

definition elem :: "nat \<Rightarrow> string \<Rightarrow> element" where
  "elem i k = \<lparr> elem_id = i, animationId = k, has_style = True, has_pause = False \<rparr>"

text \<open>An object with a \<^verbatim>\<open>pause\<close> method, such as a media element.\<close>

definition media_elem :: "nat \<Rightarrow> string \<Rightarrow> element" where
  "media_elem i k = \<lparr> elem_id = i, animationId = k, has_style = True, has_pause = True \<rparr>"

section \<open>SmartFormLoader\<close>

text \<open>
  What the skeleton element shows: the loading text it is created with, the retry text
  that \<open>retryLoad\<close> writes into its \<^verbatim>\<open>.skeleton-loading-text\<close> child, or the failure
  message with the reload button that \<open>showErrorState\<close> replaces its content with.
\<close>

datatype skeleton_view = LoadingText | RetryingText | ErrorMessage

text \<open>The callbacks that the loader passes to \<^verbatim>\<open>setTimeout\<close>.\<close>

datatype callback = LoadTimeout | RemoveSkeleton | RetryLoad | DetachSkeleton

text \<open>The part of the document that \<open>init\<close> reads.\<close>

record form_dom =
  has_container :: bool
  has_iframe :: bool
  loading_lazy :: bool

text \<open>
  The loader object (\<open>formContainer\<close> to \<open>isLoaded\<close>; the two references are modelled by
  whether they are non-null), the variables captured by the closures of \<open>loadForm\<close>
  (\<open>startTime\<close>, \<open>skeletonRemoved\<close>), and the document and browser state the loader
  writes: whether the listeners are attached, the skeleton element (\<open>None\<close> when it is
  not in the document) and whether it has been faded out, the iframe's lazy flag and
  opacity, the \<^verbatim>\<open>form-loaded\<close> class, the number of assignments to
  \<^verbatim>\<open>iframe.src\<close> (each starts a load), and the pending timers with their due times.
\<close>

record loader =
  formContainer :: bool
  iframe :: bool
  loadAttempts :: nat
  maxAttempts :: nat
  isLoaded :: bool
  startTime :: int
  skeletonRemoved :: bool
  listening :: bool
  skeleton :: "skeleton_view option"
  skeleton_faded :: bool
  iframe_lazy :: bool
  iframe_shown :: bool
  form_loaded :: bool
  src_assignments :: nat
  timers :: "(int \<times> callback) list"

definition new_loader :: loader where
  "new_loader =
     \<lparr> formContainer = False, iframe = False, loadAttempts = 0, maxAttempts = 3,
       isLoaded = False, startTime = 0, skeletonRemoved = False, listening = False,
       skeleton = None, skeleton_faded = False, iframe_lazy = False, iframe_shown = True,
       form_loaded = False, src_assignments = 0, timers = [] \<rparr>"

text \<open>A timer set at \<open>now\<close> fires no earlier than \<open>now\<close> plus its delay.\<close>

definition setTimeout :: "callback \<Rightarrow> int \<Rightarrow> int \<Rightarrow> loader \<Rightarrow> loader" where
  "setTimeout cb delay now s = s\<lparr>timers := timers s @ [(now + max 0 delay, cb)]\<rparr>"

definition clearTimeout :: "callback \<Rightarrow> loader \<Rightarrow> loader" where
  "clearTimeout cb s = s\<lparr>timers := filter (\<lambda>t. snd t \<noteq> cb) (timers s)\<rparr>"

definition createSkeletonLoader :: "form_dom \<Rightarrow> loader \<Rightarrow> loader" where
  "createSkeletonLoader doc s =
     (if has_iframe doc then
        s\<lparr>iframe := True, iframe_lazy := loading_lazy doc, iframe_shown := False,
          skeleton := Some LoadingText\<rparr>
      else s)"

definition showErrorState :: "loader \<Rightarrow> loader" where
  "showErrorState s =
     (case skeleton s of None \<Rightarrow> s | Some _ \<Rightarrow> s\<lparr>skeleton := Some ErrorMessage\<rparr>)"

definition retryLoad :: "loader \<Rightarrow> loader" where
  "retryLoad s =
     (let s1 = (case skeleton s of
                  Some LoadingText \<Rightarrow> s\<lparr>skeleton := Some RetryingText\<rparr>
                | Some RetryingText \<Rightarrow> s\<lparr>skeleton := Some RetryingText\<rparr>
                | _ \<Rightarrow> s)
      in if iframe s1 then s1\<lparr>src_assignments := src_assignments s1 + 1\<rparr> else s1)"

definition removeSkeletonAndShowForm :: "int \<Rightarrow> loader \<Rightarrow> loader" where
  "removeSkeletonAndShowForm now s =
     (case skeleton s of
        None \<Rightarrow> s
      | Some _ \<Rightarrow> setTimeout DetachSkeleton 300 now (s\<lparr>skeleton_faded := True\<rparr>))"

definition handleLoad :: "int \<Rightarrow> loader \<Rightarrow> loader" where
  "handleLoad now s =
     (let loadTime = now - startTime s;
          minDisplayTime = max 0 (SKELETON_MIN_DISPLAY - loadTime)
      in (setTimeout RemoveSkeleton minDisplayTime now s)\<lparr>isLoaded := True, form_loaded := True\<rparr>)"

definition handleError :: "int \<Rightarrow> loader \<Rightarrow> loader" where
  "handleError now s =
     (let s1 = s\<lparr>loadAttempts := loadAttempts s + 1\<rparr>
      in if loadAttempts s1 < maxAttempts s1 then setTimeout RetryLoad 2000 now s1
         else showErrorState s1)"

definition loadForm :: "int \<Rightarrow> loader \<Rightarrow> loader" where
  "loadForm now s =
     (if \<not> iframe s then s
      else
        (let s1 = s\<lparr>startTime := now, skeletonRemoved := False\<rparr>;
             s2 = setTimeout LoadTimeout FORM_LOAD_TIMEOUT now s1;
             s3 = s2\<lparr>listening := True\<rparr>
         in if iframe_lazy s3
            then s3\<lparr>iframe_lazy := False, src_assignments := src_assignments s3 + 1\<rparr>
            else s3))"

definition init :: "int \<Rightarrow> form_dom \<Rightarrow> loader" where
  "init now doc =
     (if \<not> has_container doc then new_loader
      else loadForm now (createSkeletonLoader doc (new_loader\<lparr>formContainer := True\<rparr>)))"

text \<open>What each timer callback does when it runs at time \<open>now\<close>.\<close>

fun run_callback :: "callback \<Rightarrow> int \<Rightarrow> loader \<Rightarrow> loader" where
  "run_callback LoadTimeout now s = (if \<not> isLoaded s then handleError now s else s)"
| "run_callback RemoveSkeleton now s =
     (if \<not> skeletonRemoved s then (removeSkeletonAndShowForm now s)\<lparr>skeletonRemoved := True\<rparr>
      else s)"
| "run_callback RetryLoad now s = retryLoad s"
| "run_callback DetachSkeleton now s =
     s\<lparr>skeleton := None, iframe_shown := (if iframe s then True else iframe_shown s)\<rparr>"

text \<open>
  The events the loader reacts to, each with the time at which it happens: the iframe's
  \<^verbatim>\<open>load\<close> and \<^verbatim>\<open>error\<close> events, and a timer firing. A timer fires only when
  one with that callback is pending and due; it leaves the pending list when it does.
\<close>

datatype event = IframeLoad | IframeError | Timer callback

fun step :: "int \<times> event \<Rightarrow> loader \<Rightarrow> loader" where
  "step (now, IframeLoad) s =
     (if listening s then handleLoad now (clearTimeout LoadTimeout s) else s)"
| "step (now, IframeError) s = (if listening s then handleError now s else s)"
| "step (now, Timer cb) s =
     (case find (\<lambda>t. snd t = cb \<and> fst t \<le> now) (timers s) of
        None \<Rightarrow> s
      | Some t \<Rightarrow> run_callback cb now (s\<lparr>timers := remove1 t (timers s)\<rparr>))"

definition run :: "(int \<times> event) list \<Rightarrow> loader \<Rightarrow> loader" where
  "run evs s = fold step evs s"

text \<open>A document with the form container and a non-lazy iframe in it.\<close>

definition form_page :: form_dom where
  "form_page = \<lparr> has_container = True, has_iframe = True, loading_lazy = False \<rparr>"

text \<open>The skeleton is in the document and has not been faded out.\<close>

definition skeleton_displayed :: "loader \<Rightarrow> bool" where
  "skeleton_displayed s = (skeleton s \<noteq> None \<and> \<not> skeleton_faded s)"

text \<open>
  Once \<open>loadForm\<close> has run at \<open>t0\<close>, the closures hold \<open>t0\<close> as start time, and every
  pending timer that fades or detaches the skeleton is due at \<open>t0\<close> plus the minimum
  display time or later.
\<close>

definition display_inv :: "int \<Rightarrow> loader \<Rightarrow> bool" where
  "display_inv t0 s =
     ((listening s \<longrightarrow> startTime s = t0) \<and>
      (\<forall>t \<in> set (timers s). snd t = RemoveSkeleton \<or> snd t = DetachSkeleton \<longrightarrow>
          t0 + SKELETON_MIN_DISPLAY \<le> fst t))"



text \<open>The pending load-timeout timers.\<close>

definition pending_timeouts :: "loader \<Rightarrow> (int \<times> callback) list" where
  "pending_timeouts s = filter (\<lambda>t. snd t = LoadTimeout) (timers s)"

section \<open>ScrollAnimations\<close>

text \<open>
  Elements are identified by numbers. \<open>observed\<close> holds the targets of the
  intersection observer and \<open>queued\<close> the entries it has recorded and not yet passed
  to the callback; \<open>visible\<close> holds the elements that have the class \<^verbatim>\<open>visible\<close>.
  \<open>scheduled\<close> lists every \<^verbatim>\<open>setTimeout\<close> call the observer callback has made, in
  call order, with its delay and its target; the position in the list identifies the
  timeout, and \<open>fired\<close> holds the timeouts that have run.
\<close>

record scroll_animations =
  observed :: "nat set"
  queued :: "(nat \<times> bool) list"
  animatedElements :: "nat set"
  visible :: "nat set"
  scheduled :: "(nat \<times> nat) list"
  fired :: "nat set"


text \<open>
  The observer callback, \<^verbatim>\<open>entries.forEach((entry, index) => ...)\<close>, from position
  \<open>index\<close> on. An entry is its target and \<^verbatim>\<open>isIntersecting\<close>.
\<close>

fun observer_callback :: "nat \<Rightarrow> (nat \<times> bool) list \<Rightarrow> scroll_animations \<Rightarrow> scroll_animations" where
  "observer_callback index [] s = s"
| "observer_callback index ((target, isIntersecting) # entries) s =
     observer_callback (index + 1) entries
       (if isIntersecting \<and> target \<notin> animatedElements s
        then s\<lparr>scheduled := scheduled s @ [(index * 50, target)],
               observed := observed s - {target}\<rparr>
        else s)"








section \<open>Form messages and notifications\<close>

text \<open>
  \<^verbatim>\<open>String.prototype.includes\<close>: \<open>sub\<close> occurs in \<open>s\<close> as a contiguous piece.
\<close>

fun String_includes :: "string \<Rightarrow> string \<Rightarrow> bool" where
  "String_includes [] sub = (sub = [])"
| "String_includes (c # cs) sub = (prefix sub (c # cs) \<or> String_includes cs sub)"

text \<open>
  The tokens of a \<^verbatim>\<open>class\<close> attribute: the maximal pieces without ASCII whitespace.
  \<open>cur\<close> is the token read so far.
\<close>

definition is_ascii_whitespace :: "char \<Rightarrow> bool" where
  "is_ascii_whitespace c =
     (c = CHR '' '' \<or> c = CHR 0x09 \<or> c = CHR 0x0A \<or> c = CHR 0x0C \<or> c = CHR 0x0D)"

fun class_tokens :: "string \<Rightarrow> string \<Rightarrow> string list" where
  "class_tokens cur [] = (if cur = [] then [] else [cur])"
| "class_tokens cur (c # cs) =
     (if is_ascii_whitespace c
      then (if cur = [] then class_tokens [] cs else cur # class_tokens [] cs)
      else class_tokens (cur @ [c]) cs)"

text \<open>
  A node of the document: a text, or an element with its identity, its
  \<^verbatim>\<open>class\<close> attribute and its children. An element has an identity when the script
  holds a reference to it, as to the elements it creates; the elements that the HTML
  parser makes have none.
\<close>

datatype dom_node = Element "nat option" string "dom_node list" | TextNode string

fun className :: "dom_node \<Rightarrow> string" where
  "className (Element i c ks) = c"
| "className (TextNode t) = []"

fun node_identity :: "dom_node \<Rightarrow> nat option" where
  "node_identity (Element i c ks) = i"
| "node_identity (TextNode t) = None"

definition has_class :: "string \<Rightarrow> dom_node \<Rightarrow> bool" where
  "has_class c n = (c \<in> set (class_tokens [] (className n)))"

text \<open>The elements of a list of sibling nodes and of their subtrees, in document order.\<close>

fun elements_of :: "dom_node list \<Rightarrow> dom_node list" where
  "elements_of [] = []"
| "elements_of (TextNode t # ns) = elements_of ns"
| "elements_of (Element i c ks # ns) = Element i c ks # (elements_of ks @ elements_of ns)"

text \<open>
  \<^verbatim>\<open>document.querySelector(sel).remove()\<close>: the first element in document order that
  matches is taken out, with its subtree.
\<close>

fun remove_first :: "(dom_node \<Rightarrow> bool) \<Rightarrow> dom_node list \<Rightarrow> dom_node list" where
  "remove_first P [] = []"
| "remove_first P (TextNode t # ns) = TextNode t # remove_first P ns"
| "remove_first P (Element i c ks # ns) =
     (if P (Element i c ks) then ns
      else if list_ex P (elements_of ks) then Element i c (remove_first P ks) # ns
      else Element i c ks # remove_first P ns)"

text \<open>\<^verbatim>\<open>element.remove()\<close> on the element with the identity \<open>i\<close>.\<close>

fun detach :: "nat \<Rightarrow> dom_node list \<Rightarrow> dom_node list" where
  "detach i [] = []"
| "detach i (TextNode t # ns) = TextNode t # detach i ns"
| "detach i (Element j c ks # ns) =
     (if j = Some i then detach i ns else Element j c (detach i ks) # detach i ns)"

text \<open>One call of the analytics function: command, event name, category and label.\<close>

type_synonym gtag_call = "string \<times> string \<times> string \<times> string"

text \<open>
  The document: the children of its body in order, the identity the next created
  element gets, the pending timeouts of \<open>showNotification\<close> (the 5000 ms one, then the
  500 ms one, each by the notification it belongs to), whether the global
  \<^verbatim>\<open>gtag\<close> is defined, and the calls made to it. The body and the elements outside
  it are taken to be without the class \<^verbatim>\<open>notification\<close>.
\<close>

record document =
  elements :: "dom_node list"
  next_node :: nat
  removeTimeouts :: "nat list"
  slideOutTimeouts :: "nat list"
  gtag_defined :: bool
  gtag_calls :: "gtag_call list"

definition remove_node :: "nat \<Rightarrow> document \<Rightarrow> document" where
  "remove_node i d = d\<lparr>elements := detach i (elements d)\<rparr>"

text \<open>
  \<open>showNotification\<close> assigns a markup string to \<^verbatim>\<open>innerHTML\<close>: the icon of the type
  in an \<^verbatim>\<open>svg\<close> element, then the message in a \<^verbatim>\<open>span\<close>. The HTML parser of the
  browser turns the string into nodes; the model takes these nodes, \<open>content\<close>, in
  place of the message. The type argument is optional and defaults to \<^verbatim>\<open>'info'\<close>.
\<close>

definition showNotification :: "dom_node list \<Rightarrow> string option \<Rightarrow> document \<Rightarrow> document" where
  "showNotification content type_arg d =
     (let ty = (case type_arg of None \<Rightarrow> ''info'' | Some t \<Rightarrow> t);
          d1 = (case find (has_class ''notification'') (elements_of (elements d)) of
                  None \<Rightarrow> d
                | Some existingNotif \<Rightarrow>
                    d\<lparr>elements := remove_first (has_class ''notification'') (elements d)\<rparr>);
          notification = Element (Some (next_node d1)) (''notification notification-'' @ ty) content
      in d1\<lparr>elements := elements d1 @ [notification],
            next_node := next_node d1 + 1,
            removeTimeouts := removeTimeouts d1 @ [next_node d1]\<rparr>)"

text \<open>
  What the parser makes of the markup string when the message parses to the nodes
  \<open>message\<close> inside the \<^verbatim>\<open>span\<close>: the line breaks and indentation of the template
  as texts, the \<^verbatim>\<open>svg\<close> element with the shapes of the icon (none of them has a
  class; an unknown type gives the text \<^verbatim>\<open>undefined\<close>), and the \<^verbatim>\<open>span\<close>. A
  message without markup characters parses to one text.
\<close>

definition indent :: "nat \<Rightarrow> dom_node" where
  "indent n = TextNode (CHR 0x0A # replicate n (CHR '' ''))"

definition shape :: dom_node where
  "shape = Element None [] []"

definition icon :: "string \<Rightarrow> dom_node list" where
  "icon ty =
     (if ty = ''success'' then [shape, shape]
      else if ty = ''warning'' \<or> ty = ''error'' \<or> ty = ''info'' then [shape, shape, shape]
      else [TextNode ''undefined''])"

definition notification_content :: "string \<Rightarrow> dom_node list \<Rightarrow> dom_node list" where
  "notification_content ty message =
     [indent 12,
      Element None [] ([TextNode (CHR 0x0A # replicate 16 (CHR '' ''))] @ icon ty @ [indent 12]),
      indent 12,
      Element None [] message,
      indent 8]"

definition plain_content :: "string \<Rightarrow> string \<Rightarrow> dom_node list" where
  "plain_content ty text = notification_content ty [TextNode text]"

text \<open>
  What happens to notifications afterwards: the 5000 ms timeout of notification \<open>i\<close>
  starts the slide-out and sets the 500 ms timeout; that one removes the element; a
  click on an attached notification clears the first timeout and removes the element.
  Only notifications have the click listener; the model lets a click take away any
  attached element that has an identity, which allows more runs than the page does.
\<close>

datatype notification_event =
  Show "dom_node list" "string option" | RemoveTimeout nat | SlideOutDone nat | Click nat

fun notification_step :: "notification_event \<Rightarrow> document \<Rightarrow> document" where
  "notification_step (Show content type_arg) d = showNotification content type_arg d"
| "notification_step (RemoveTimeout i) d =
     (if i \<in> set (removeTimeouts d)
      then d\<lparr>removeTimeouts := remove1 i (removeTimeouts d),
             slideOutTimeouts := slideOutTimeouts d @ [i]\<rparr>
      else d)"
| "notification_step (SlideOutDone i) d =
     (if i \<in> set (slideOutTimeouts d)
      then remove_node i (d\<lparr>slideOutTimeouts := remove1 i (slideOutTimeouts d)\<rparr>)
      else d)"
| "notification_step (Click i) d =
     (if list_ex (\<lambda>n. n = Some i) (map node_identity (elements_of (elements d)))
      then remove_node i (d\<lparr>removeTimeouts := removeAll i (removeTimeouts d)\<rparr>)
      else d)"

definition notification_run :: "notification_event list \<Rightarrow> document \<Rightarrow> document" where
  "notification_run evs d = fold notification_step evs d"

definition notification_count :: "document \<Rightarrow> nat" where
  "notification_count d =
     length (filter (has_class ''notification'') (elements_of (elements d)))"

text \<open>The nodes hold no element of the class \<^verbatim>\<open>notification\<close>.\<close>

definition unmarked :: "dom_node list \<Rightarrow> bool" where
  "unmarked content = (filter (has_class ''notification'') (elements_of content) = [])"

fun unmarked_event :: "notification_event \<Rightarrow> bool" where
  "unmarked_event (Show content type_arg) = unmarked content"
| "unmarked_event ev = True"

text \<open>
  A \<^verbatim>\<open>message\<close> event: its origin and its data. The data is falsy, or truthy with
  a \<^verbatim>\<open>type\<close> property (\<open>None\<close> when it has none or it is not a string).
\<close>

datatype message_data = Falsy | Truthy "string option"

record message_event =
  origin :: string
  data :: message_data

definition TRUSTED_ORIGIN :: string where
  "TRUSTED_ORIGIN = ''leadconnectorhq.com''"

text \<open>The message shown, in UTF-8; it has no markup characters.\<close>

definition FORM_MESSAGE :: string where
  "FORM_MESSAGE = [CHR 0xC2, CHR 0xA1] @ ''Informaci'' @ [CHR 0xC3, CHR 0xB3]
     @ ''n recibida! Te contactaremos en menos de 24 horas.''"

definition FORM_SUBMIT_CALL :: gtag_call where
  "FORM_SUBMIT_CALL = (''event'', ''form_submit'', ''engagement'', ''consultation_form'')"

definition handleFormMessage :: "message_event \<Rightarrow> document \<Rightarrow> document" where
  "handleFormMessage event d =
     (if \<not> String_includes (origin event) TRUSTED_ORIGIN then d
      else if data event = Truthy (Some ''form-submitted'') then
        (let d1 = showNotification (plain_content ''success'' FORM_MESSAGE) (Some ''success'') d
         in if gtag_defined d1 then d1\<lparr>gtag_calls := gtag_calls d1 @ [FORM_SUBMIT_CALL]\<rparr>
            else d1)
      else d)"

text \<open>An empty document, and a message from the form's frame.\<close>

definition empty_document :: "bool \<Rightarrow> document" where
  "empty_document g =
     \<lparr> elements = [], next_node = 0, removeTimeouts = [], slideOutTimeouts = [],
       gtag_defined = g, gtag_calls = [] \<rparr>"

definition submitted_event :: message_event where
  "submitted_event =
     \<lparr> origin = ''https://api.leadconnectorhq.com'', data = Truthy (Some ''form-submitted'') \<rparr>"

section \<open>Countdown: ranges and rendering\<close>

lemma floor_div_eq: "floor_div x y = x div y"
  by (simp add: floor_div_def floor_divide_of_int_eq)

lemma js_rem_nonneg: "0 \<le> a \<Longrightarrow> 0 < b \<Longrightarrow> js_rem a b = a mod b"
  by (simp add: js_rem_def)

lemma nat_toString_digit: "n < 10 \<Longrightarrow> nat_toString n = [digit_char n]"
  by (subst nat_toString.simps) simp

lemma nat_toString_two: "10 \<le> n \<Longrightarrow> n < 100 \<Longrightarrow>
    nat_toString n = [digit_char (n div 10), digit_char (n mod 10)]"
proof -
  assume a: "10 \<le> n" and b: "n < 100"
  then have "n div 10 < 10" by simp
  then have "nat_toString (n div 10) = [digit_char (n div 10)]" by (rule nat_toString_digit)
  with a show ?thesis by (subst nat_toString.simps) simp
qed

lemma padStart_toString_two_digits:
  assumes "0 \<le> v" "v < 100"
  shows "padStart 2 (CHR ''0'') (toString v) = two_digits v"
proof (cases "v < 10")
  case True
  with assms have n: "nat v < 10" by simp
  then have "nat_toString (nat v) = [digit_char (nat v)]" by (rule nat_toString_digit)
  moreover have "digit_char (nat v div 10) = CHR ''0''" "digit_char (nat v mod 10) = digit_char (nat v)"
    using n by (simp_all add: digit_char_def)
  ultimately show ?thesis using assms by (simp add: padStart_def toString_def two_digits_def)
next
  case False
  with assms have "10 \<le> nat v" "nat v < 100" by simp_all
  then have "nat_toString (nat v) = [digit_char (nat v div 10), digit_char (nat v mod 10)]"
    by (rule nat_toString_two)
  with assms show ?thesis by (simp add: padStart_def toString_def two_digits_def)
qed

text \<open>
  C10. When the countdown update runs at a time strictly before the next local
  midnight (\<open>now < tomorrow\<close>), the hours value lies in 0..23, the minutes and seconds
  values lie in 0..59, and each of the three rendered strings has exactly two
  characters: the two decimal digits of the value, a leading zero included.
\<close>

theorem updateCountdown_ranges:
  assumes "now < tomorrow"
  shows "0 \<le> hours (updateCountdown now tomorrow) \<and> hours (updateCountdown now tomorrow) \<le> 23
       \<and> 0 \<le> minutes (updateCountdown now tomorrow) \<and> minutes (updateCountdown now tomorrow) \<le> 59
       \<and> 0 \<le> seconds (updateCountdown now tomorrow) \<and> seconds (updateCountdown now tomorrow) \<le> 59
       \<and> length (hours_text (updateCountdown now tomorrow)) = 2
       \<and> length (minutes_text (updateCountdown now tomorrow)) = 2
       \<and> length (seconds_text (updateCountdown now tomorrow)) = 2
       \<and> hours_text (updateCountdown now tomorrow) = two_digits (hours (updateCountdown now tomorrow))
       \<and> minutes_text (updateCountdown now tomorrow) = two_digits (minutes (updateCountdown now tomorrow))
       \<and> seconds_text (updateCountdown now tomorrow) = two_digits (seconds (updateCountdown now tomorrow))"
proof -
  define d where "d = tomorrow - now"
  have d0: "0 \<le> d" using assms by (simp add: d_def)
  define h where "h = floor_div (js_rem d (1000 * 60 * 60 * 24)) (1000 * 60 * 60)"
  define m where "m = floor_div (js_rem d (1000 * 60 * 60)) (1000 * 60)"
  define s where "s = floor_div (js_rem d (1000 * 60)) 1000"
  have h_eq: "h = (d mod 86400000) div 3600000"
    using d0 by (simp add: h_def floor_div_eq js_rem_nonneg)
  have m_eq: "m = (d mod 3600000) div 60000"
    using d0 by (simp add: m_def floor_div_eq js_rem_nonneg)
  have s_eq: "s = (d mod 60000) div 1000"
    using d0 by (simp add: s_def floor_div_eq js_rem_nonneg)
  have hr: "0 \<le> h \<and> h \<le> 23"
  proof -
    have "0 \<le> d mod 86400000" "d mod 86400000 < 86400000" by simp_all
    then show ?thesis unfolding h_eq by (simp add: pos_imp_zdiv_nonneg_iff)
  qed
  have mr: "0 \<le> m \<and> m \<le> 59"
  proof -
    have "0 \<le> d mod 3600000" "d mod 3600000 < 3600000" by simp_all
    then show ?thesis unfolding m_eq by (simp add: pos_imp_zdiv_nonneg_iff)
  qed
  have sr: "0 \<le> s \<and> s \<le> 59"
  proof -
    have "0 \<le> d mod 60000" "d mod 60000 < 60000" by simp_all
    then show ?thesis unfolding s_eq by (simp add: pos_imp_zdiv_nonneg_iff)
  qed
  have texts: "padStart 2 (CHR ''0'') (toString h) = two_digits h"
              "padStart 2 (CHR ''0'') (toString m) = two_digits m"
              "padStart 2 (CHR ''0'') (toString s) = two_digits s"
    using hr mr sr by (simp_all add: padStart_toString_two_digits)
  have eq: "updateCountdown now tomorrow =
      \<lparr> hours = h, minutes = m, seconds = s,
        hours_text = padStart 2 (CHR ''0'') (toString h),
        minutes_text = padStart 2 (CHR ''0'') (toString m),
        seconds_text = padStart 2 (CHR ''0'') (toString s) \<rparr>"
    by (simp add: updateCountdown_def Let_def d_def h_def m_def s_def)
  show ?thesis unfolding eq using hr mr sr texts by (simp add: two_digits_def)
qed

theorem updateCountdown_ranges_witness:
  "(1000::int) < 86400000
   \<and> hours (updateCountdown 1000 86400000) = 23
   \<and> minutes (updateCountdown 1000 86400000) = 59
   \<and> seconds (updateCountdown 1000 86400000) = 59
   \<and> hours_text (updateCountdown 1000 86400000) = ''23''
   \<and> minutes_text (updateCountdown 1000 86400000) = ''59''
   \<and> seconds_text (updateCountdown 1000 86400000) = ''59''
   \<and> length (hours_text (updateCountdown 1000 86400000)) = 2"
proof -
  have v: "hours (updateCountdown 1000 86400000) = 23"
    "minutes (updateCountdown 1000 86400000) = 59"
    "seconds (updateCountdown 1000 86400000) = 59"
    by (simp_all add: updateCountdown_def Let_def js_rem_def floor_div_eq)
  show ?thesis
    using updateCountdown_ranges [of 1000 86400000] v
    by (simp add: two_digits_def digit_char_def)
qed

section \<open>Frame-rate sampler\<close>

lemma classList_add_contains: "classList_contains (classList_add c cs) c"
  by (simp add: classList_add_def classList_contains_def)

lemma classList_remove_contains: "\<not> classList_contains (classList_remove c cs) c"
  by (simp add: classList_remove_def classList_contains_def)

lemma d_less_thresholds: "d_less (Finite 50) x \<Longrightarrow> \<not> d_less x (Finite 30)"
  by (cases x) simp_all

text \<open>
  C1. Whenever a call of \<open>measureFPS\<close> computes a frames-per-second sample, whatever the
  rounding of the arithmetic: if the value is strictly below 30, the body has the class
  \<open>reduce-animations\<close> afterwards; if it is strictly above 50, the body does not have
  it; and if it is neither, as for every value from 30 to 50, the class list of the body
  is what it was before.
\<close>

theorem measureFPS_thresholds:
  assumes "sampled ar now p"
  shows "(d_less (metrics_fps (measureFPS ar now p)) (Finite 30) \<longrightarrow>
            classList_contains (body_classList (measureFPS ar now p)) ''reduce-animations'')
       \<and> (d_less (Finite 50) (metrics_fps (measureFPS ar now p)) \<longrightarrow>
            \<not> classList_contains (body_classList (measureFPS ar now p)) ''reduce-animations'')
       \<and> (\<not> d_less (metrics_fps (measureFPS ar now p)) (Finite 30)
            \<and> \<not> d_less (Finite 50) (metrics_fps (measureFPS ar now p)) \<longrightarrow>
            body_classList (measureFPS ar now p) = body_classList p)
       \<and> (d_ge (metrics_fps (measureFPS ar now p)) (Finite 30)
            \<and> d_ge (Finite 50) (metrics_fps (measureFPS ar now p)) \<longrightarrow>
            body_classList (measureFPS ar now p) = body_classList p)"
proof -
  define f where "f = Math_round (fl_div ar
      (fl_mul ar (Finite (real (frameCount p + 1))) (Finite 1000))
      (fl_sub ar (Finite now) (Finite (lastFrameTime p))))"
  note defs = measureFPS_def sampled_def Let_def f_def reduceQuality_def restoreQuality_def
  have fps: "metrics_fps (measureFPS ar now p) = f"
    using assms by (simp add: defs)
  have 1: "classList_contains (body_classList (measureFPS ar now p)) ''reduce-animations''"
    if "d_less f (Finite 30)"
    using that assms by (simp add: defs classList_add_contains)
  have 2: "\<not> classList_contains (body_classList (measureFPS ar now p)) ''reduce-animations''"
    if "d_less (Finite 50) f"
    using that d_less_thresholds [OF that] assms
    by (simp add: defs classList_remove_contains)
  have 3: "body_classList (measureFPS ar now p) = body_classList p"
    if "\<not> d_less f (Finite 30)" "\<not> d_less (Finite 50) f"
    using that assms by (simp add: defs)
  have 4: "body_classList (measureFPS ar now p) = body_classList p"
    if "d_ge f (Finite 30)" "d_ge (Finite 50) f"
    using that 3 by (simp add: d_ge_def)
  from 1 2 3 4 show ?thesis unfolding fps by blast
qed

theorem measureFPS_thresholds_witness:
  "sampled exact_arith 1000 ((new_page 0 [])\<lparr>frameCount := 19\<rparr>)
   \<and> metrics_fps (measureFPS exact_arith 1000 ((new_page 0 [])\<lparr>frameCount := 19\<rparr>)) = Finite 20
   \<and> classList_contains
        (body_classList (measureFPS exact_arith 1000 ((new_page 0 [])\<lparr>frameCount := 19\<rparr>)))
        ''reduce-animations''
   \<and> sampled exact_arith 1000 ((new_page 0 [''reduce-animations''])\<lparr>frameCount := 59\<rparr>)
   \<and> metrics_fps (measureFPS exact_arith 1000
         ((new_page 0 [''reduce-animations''])\<lparr>frameCount := 59\<rparr>)) = Finite 60
   \<and> \<not> classList_contains
        (body_classList (measureFPS exact_arith 1000
           ((new_page 0 [''reduce-animations''])\<lparr>frameCount := 59\<rparr>)))
        ''reduce-animations''
   \<and> sampled exact_arith 1000 ((new_page 0 [''reduce-animations''])\<lparr>frameCount := 39\<rparr>)
   \<and> metrics_fps (measureFPS exact_arith 1000
         ((new_page 0 [''reduce-animations''])\<lparr>frameCount := 39\<rparr>)) = Finite 40
   \<and> body_classList (measureFPS exact_arith 1000
         ((new_page 0 [''reduce-animations''])\<lparr>frameCount := 39\<rparr>)) = [''reduce-animations'']"
proof -
  have s1: "sampled exact_arith 1000 ((new_page 0 [])\<lparr>frameCount := 19\<rparr>)"
    and s2: "sampled exact_arith 1000 ((new_page 0 [''reduce-animations''])\<lparr>frameCount := 59\<rparr>)"
    and s3: "sampled exact_arith 1000 ((new_page 0 [''reduce-animations''])\<lparr>frameCount := 39\<rparr>)"
    by (simp_all add: sampled_def new_page_def exact_arith_def d_ge_def)
  have f1: "metrics_fps (measureFPS exact_arith 1000 ((new_page 0 [])\<lparr>frameCount := 19\<rparr>)) = Finite 20"
    and f2: "metrics_fps (measureFPS exact_arith 1000
         ((new_page 0 [''reduce-animations''])\<lparr>frameCount := 59\<rparr>)) = Finite 60"
    and f3: "metrics_fps (measureFPS exact_arith 1000
         ((new_page 0 [''reduce-animations''])\<lparr>frameCount := 39\<rparr>)) = Finite 40"
    by (simp_all add: measureFPS_def new_page_def exact_arith_def d_ge_def Let_def
          reduceQuality_def restoreQuality_def)
  show ?thesis
    using s1 s2 s3 f1 f2 f3
      measureFPS_thresholds [OF s1] measureFPS_thresholds [OF s2] measureFPS_thresholds [OF s3]
    by (simp add: new_page_def d_ge_def)
qed

section \<open>Animation registry\<close>

lemma registry_pauseAnimation:
  "animationRegistry (pauseAnimation k p) = AList.delete k (animationRegistry p)"
  by (simp add: pauseAnimation_def Let_def split: option.split)

lemma pause_calls_pauseAnimation:
  "pause_calls (pauseAnimation k p) =
     pause_calls p @ (case map_of (animationRegistry p) k of
                        Some a \<Rightarrow> if has_pause a then [elem_id a] else []
                      | None \<Rightarrow> [])"
  by (simp add: pauseAnimation_def Let_def split: option.split)

lemma length_update:
  "length (AList.update k v al) = (if k \<in> fst ` set al then length al else Suc (length al))"
proof -
  have "length (AList.update k v al) = length (map fst (AList.update k v al))" by simp
  also have "\<dots> = (if k \<in> fst ` set al then length al else Suc (length al))"
    by (simp only: update_keys) simp
  finally show ?thesis .
qed

lemma delete_oldest:
  assumes "distinct (map fst ((k0, a0) # rest))"
  shows "AList.delete k0 ((k0, a0) # rest) = rest"
  using assms by (simp add: image_iff)

lemma registry_registerAnimation_below:
  assumes "length (animationRegistry p) < MAX_CONCURRENT_ANIMATIONS"
  shows "animationRegistry (registerAnimation k a p) = AList.update k a (animationRegistry p)"
  using assms by (simp add: registerAnimation_def Let_def)

lemma registry_registerAnimation_cap:
  assumes "distinct (map fst (animationRegistry p))"
    and "length (animationRegistry p) \<ge> MAX_CONCURRENT_ANIMATIONS"
  shows "animationRegistry (registerAnimation k a p) = AList.update k a (tl (animationRegistry p))"
proof (cases "animationRegistry p")
  case Nil
  with assms(2) show ?thesis by (simp add: MAX_CONCURRENT_ANIMATIONS_def)
next
  case (Cons e rest)
  obtain k0 a0 where e: "e = (k0, a0)" by (cases e)
  have "AList.delete k0 (animationRegistry p) = rest"
    using assms(1) unfolding Cons e by (rule delete_oldest)
  then show ?thesis
    using assms(2) Cons e
    by (simp add: registerAnimation_def Let_def registry_pauseAnimation)
qed

lemma pause_calls_registerAnimation_cap:
  assumes "animationRegistry p = (k0, a0) # rest"
    and "length (animationRegistry p) \<ge> MAX_CONCURRENT_ANIMATIONS"
  shows "pause_calls (registerAnimation k a p) =
           pause_calls p @ (if has_pause a0 then [elem_id a0] else [])"
  using assms by (simp add: registerAnimation_def Let_def pause_calls_pauseAnimation)

lemma registry_ok_registerAnimation:
  assumes "registry_ok p"
  shows "registry_ok (registerAnimation k a p)"
proof (cases "length (animationRegistry p) < MAX_CONCURRENT_ANIMATIONS")
  case True
  then show ?thesis
    using assms
    by (simp add: registry_ok_def registry_registerAnimation_below distinct_update length_update)
next
  case False
  then have cap: "length (animationRegistry p) \<ge> MAX_CONCURRENT_ANIMATIONS" by simp
  have d: "distinct (map fst (animationRegistry p))" using assms by (simp add: registry_ok_def)
  have eq: "animationRegistry (registerAnimation k a p) = AList.update k a (tl (animationRegistry p))"
    using d cap by (rule registry_registerAnimation_cap)
  have "distinct (map fst (tl (animationRegistry p)))"
    using d by (simp add: distinct_tl map_tl)
  moreover have "length (tl (animationRegistry p)) < MAX_CONCURRENT_ANIMATIONS"
    using assms cap by (simp add: registry_ok_def MAX_CONCURRENT_ANIMATIONS_def)
  ultimately show ?thesis
    unfolding registry_ok_def eq
    by (simp add: distinct_update length_update)
qed

lemma registry_ok_pauseAnimation:
  assumes "registry_ok p"
  shows "registry_ok (pauseAnimation k p)"
proof -
  have "length (AList.delete k (animationRegistry p)) \<le> length (animationRegistry p)"
    by (rule length_delete_le)
  then show ?thesis
    using assms by (simp add: registry_ok_def registry_pauseAnimation distinct_delete)
qed

lemma registry_ok_monitor_calls:
  "registry_ok p \<Longrightarrow> registry_ok (monitor_calls cs p)"
  unfolding monitor_calls_def
proof (induction cs arbitrary: p)
  case Nil
  then show ?case by simp
next
  case (Cons c cs)
  have "registry_ok (apply_call c p)"
    using Cons.prems by (cases c) (simp_all add: registry_ok_registerAnimation registry_ok_pauseAnimation)
  then show ?case using Cons.IH by simp
qed

lemma registry_ok_new_page: "registry_ok (new_page t cs)"
  by (simp add: registry_ok_def new_page_def)

lemma register_all_keys:
  assumes "distinct (map fst kas)"
  shows "registry_ok (register_all kas (new_page t cs)) \<and>
         map fst (animationRegistry (register_all kas (new_page t cs))) =
           drop (length kas - MAX_CONCURRENT_ANIMATIONS) (map fst kas)"
  using assms
proof (induction kas rule: rev_induct)
  case Nil
  then show ?case by (simp add: register_all_def registry_ok_new_page) (simp add: new_page_def)
next
  case (snoc x kas)
  obtain k a where x: "x = (k, a)" by (cases x)
  define p where "p = register_all kas (new_page t cs)"
  have step: "register_all (kas @ [x]) (new_page t cs) = registerAnimation k a p"
    by (simp add: register_all_def p_def x)
  have d: "distinct (map fst kas)" and knew: "k \<notin> fst ` set kas"
    using snoc.prems by (simp_all add: x image_iff)
  have ok: "registry_ok p"
    and keys: "map fst (animationRegistry p) = drop (length kas - MAX_CONCURRENT_ANIMATIONS) (map fst kas)"
    using snoc.IH [OF d] by (simp_all add: p_def)
  have ok': "registry_ok (registerAnimation k a p)"
    using ok by (rule registry_ok_registerAnimation)
  have kfresh: "k \<notin> set (map fst (animationRegistry p))"
    unfolding keys using knew by (auto dest: in_set_dropD)
  show ?case
  proof (cases "length (animationRegistry p) < MAX_CONCURRENT_ANIMATIONS")
    case True
    have len: "length (map fst (animationRegistry p)) < MAX_CONCURRENT_ANIMATIONS"
      using True by simp
    then have small: "length kas < MAX_CONCURRENT_ANIMATIONS"
      unfolding keys by (simp add: MAX_CONCURRENT_ANIMATIONS_def)
    have "map fst (animationRegistry (registerAnimation k a p)) = map fst (animationRegistry p) @ [k]"
      using kfresh by (simp add: registry_registerAnimation_below [OF True] update_keys)
    then show ?thesis
      unfolding step using ok' small keys by (simp add: x)
  next
    case False
    then have cap: "length (animationRegistry p) \<ge> MAX_CONCURRENT_ANIMATIONS" by simp
    then have "length (map fst (animationRegistry p)) \<ge> MAX_CONCURRENT_ANIMATIONS" by simp
    then have big: "length kas \<ge> MAX_CONCURRENT_ANIMATIONS"
      unfolding keys by (simp add: MAX_CONCURRENT_ANIMATIONS_def)
    have dp: "distinct (map fst (animationRegistry p))" using ok by (simp add: registry_ok_def)
    have kfresh': "k \<notin> set (map fst (tl (animationRegistry p)))"
      using kfresh by (cases "animationRegistry p") auto
    have "map fst (animationRegistry (registerAnimation k a p)) = tl (map fst (animationRegistry p)) @ [k]"
      using kfresh' by (simp add: registry_registerAnimation_cap [OF dp cap] update_keys map_tl)
    also have "\<dots> = drop (Suc (length kas - MAX_CONCURRENT_ANIMATIONS)) (map fst kas) @ [k]"
      unfolding keys by (simp add: tl_drop drop_Suc)
    also have "\<dots> = drop (length (kas @ [x]) - MAX_CONCURRENT_ANIMATIONS) (map fst (kas @ [x]))"
    proof -
      have "Suc (length kas - MAX_CONCURRENT_ANIMATIONS) = length (kas @ [x]) - MAX_CONCURRENT_ANIMATIONS"
        using big by (simp add: MAX_CONCURRENT_ANIMATIONS_def)
      moreover have "length (map fst kas) \<ge> length (kas @ [x]) - MAX_CONCURRENT_ANIMATIONS"
        by (simp add: MAX_CONCURRENT_ANIMATIONS_def)
      ultimately show ?thesis by (simp add: x)
    qed
    finally show ?thesis unfolding step using ok' by simp
  qed
qed

text \<open>
  C4, as amended. After every sequence of \<open>registerAnimation\<close> and \<open>pauseAnimation\<close>
  calls on a new monitor the registry holds at most \<open>MAX_CONCURRENT_ANIMATIONS\<close> entries.
  Registering when the registry is at the cap removes its first entry, the one inserted
  earliest, and then stores the new entry; the \<open>pause\<close> method of the removed object is
  called exactly when the object has one, so an object without one is removed without
  being paused. Registering a list of distinct identifiers on a new monitor leaves the
  last \<open>MAX_CONCURRENT_ANIMATIONS\<close> of them, in registration order.
\<close>

theorem animationRegistry_cap_fifo:
  assumes "p = monitor_calls calls (new_page t cs)"
  shows "length (animationRegistry p) \<le> MAX_CONCURRENT_ANIMATIONS
       \<and> (length (animationRegistry p) = MAX_CONCURRENT_ANIMATIONS \<longrightarrow>
            animationRegistry (registerAnimation k a p) = AList.update k a (tl (animationRegistry p))
          \<and> fst (hd (animationRegistry p)) \<notin> fst ` set (tl (animationRegistry p))
          \<and> pause_calls (registerAnimation k a p) =
              pause_calls p @ (if has_pause (snd (hd (animationRegistry p)))
                               then [elem_id (snd (hd (animationRegistry p)))] else [])
          \<and> length (animationRegistry (registerAnimation k a p)) \<le> MAX_CONCURRENT_ANIMATIONS)
       \<and> (distinct (map fst kas) \<longrightarrow>
            map fst (animationRegistry (register_all kas (new_page t cs))) =
              drop (length kas - MAX_CONCURRENT_ANIMATIONS) (map fst kas))"
proof -
  have ok: "registry_ok p"
    unfolding assms by (rule registry_ok_monitor_calls [OF registry_ok_new_page])
  then have len: "length (animationRegistry p) \<le> MAX_CONCURRENT_ANIMATIONS"
    and d: "distinct (map fst (animationRegistry p))"
    by (simp_all add: registry_ok_def)
  have cap: "animationRegistry (registerAnimation k a p) = AList.update k a (tl (animationRegistry p))
          \<and> fst (hd (animationRegistry p)) \<notin> fst ` set (tl (animationRegistry p))
          \<and> pause_calls (registerAnimation k a p) =
              pause_calls p @ (if has_pause (snd (hd (animationRegistry p)))
                               then [elem_id (snd (hd (animationRegistry p)))] else [])
          \<and> length (animationRegistry (registerAnimation k a p)) \<le> MAX_CONCURRENT_ANIMATIONS"
    if at_cap: "length (animationRegistry p) = MAX_CONCURRENT_ANIMATIONS"
  proof -
    have ge: "length (animationRegistry p) \<ge> MAX_CONCURRENT_ANIMATIONS" using at_cap by simp
    obtain k0 a0 rest where reg: "animationRegistry p = (k0, a0) # rest"
      using at_cap by (cases "animationRegistry p") (auto simp: MAX_CONCURRENT_ANIMATIONS_def)
    have 1: "animationRegistry (registerAnimation k a p) = AList.update k a (tl (animationRegistry p))"
      using d ge by (rule registry_registerAnimation_cap)
    have 2: "fst (hd (animationRegistry p)) \<notin> fst ` set (tl (animationRegistry p))"
      using d by (simp add: reg)
    have 3: "pause_calls (registerAnimation k a p) =
              pause_calls p @ (if has_pause (snd (hd (animationRegistry p)))
                               then [elem_id (snd (hd (animationRegistry p)))] else [])"
      using pause_calls_registerAnimation_cap [OF reg ge] by (simp add: reg)
    have 4: "length (animationRegistry (registerAnimation k a p)) \<le> MAX_CONCURRENT_ANIMATIONS"
      using registry_ok_registerAnimation [OF ok] by (simp add: registry_ok_def)
    from 1 2 3 4 show ?thesis by blast
  qed
  have fifo: "map fst (animationRegistry (register_all kas (new_page t cs))) =
              drop (length kas - MAX_CONCURRENT_ANIMATIONS) (map fst kas)"
    if "distinct (map fst kas)"
    using register_all_keys [OF that] by blast
  from len cap fifo show ?thesis by blast
qed

theorem animationRegistry_cap_fifo_witness:
  "length (animationRegistry (monitor_calls
       [Register ''a'' (media_elem 0 ''a''), Register ''b'' (elem 1 ''b''), Register ''c'' (elem 2 ''c'')]
       (new_page 0 []))) = MAX_CONCURRENT_ANIMATIONS
   \<and> map fst (animationRegistry (registerAnimation ''d'' (elem 3 ''d'') (monitor_calls
       [Register ''a'' (media_elem 0 ''a''), Register ''b'' (elem 1 ''b''), Register ''c'' (elem 2 ''c'')]
       (new_page 0 [])))) = [''b'', ''c'', ''d'']
   \<and> pause_calls (registerAnimation ''d'' (elem 3 ''d'') (monitor_calls
       [Register ''a'' (media_elem 0 ''a''), Register ''b'' (elem 1 ''b''), Register ''c'' (elem 2 ''c'')]
       (new_page 0 []))) = [0]
   \<and> length (animationRegistry (monitor_calls
       [Register ''a'' (media_elem 0 ''a''), Register ''b'' (elem 1 ''b''), Register ''c'' (elem 2 ''c''),
        Register ''d'' (elem 3 ''d'')]
       (new_page 0 []))) = MAX_CONCURRENT_ANIMATIONS
   \<and> map fst (animationRegistry (registerAnimation ''e'' (elem 4 ''e'') (monitor_calls
       [Register ''a'' (media_elem 0 ''a''), Register ''b'' (elem 1 ''b''), Register ''c'' (elem 2 ''c''),
        Register ''d'' (elem 3 ''d'')]
       (new_page 0 [])))) = [''c'', ''d'', ''e'']
   \<and> pause_calls (registerAnimation ''e'' (elem 4 ''e'') (monitor_calls
       [Register ''a'' (media_elem 0 ''a''), Register ''b'' (elem 1 ''b''), Register ''c'' (elem 2 ''c''),
        Register ''d'' (elem 3 ''d'')]
       (new_page 0 []))) = [0]
   \<and> distinct (map fst [(''a'', elem 0 ''a''), (''b'', elem 1 ''b''), (''c'', elem 2 ''c''), (''d'', elem 3 ''d'')])
   \<and> map fst (animationRegistry (register_all
       [(''a'', elem 0 ''a''), (''b'', elem 1 ''b''), (''c'', elem 2 ''c''), (''d'', elem 3 ''d'')]
       (new_page 0 []))) = [''b'', ''c'', ''d'']"
proof -
  define p where "p = monitor_calls
       [Register ''a'' (media_elem 0 ''a''), Register ''b'' (elem 1 ''b''), Register ''c'' (elem 2 ''c'')]
       (new_page 0 [])"
  define q where "q = monitor_calls
       [Register ''a'' (media_elem 0 ''a''), Register ''b'' (elem 1 ''b''), Register ''c'' (elem 2 ''c''),
        Register ''d'' (elem 3 ''d'')]
       (new_page 0 [])"
  have regp: "animationRegistry p =
      [(''a'', media_elem 0 ''a''), (''b'', elem 1 ''b''), (''c'', elem 2 ''c'')]"
    and pcp: "pause_calls p = []"
    by (simp_all add: p_def monitor_calls_def registerAnimation_def new_page_def Let_def
          MAX_CONCURRENT_ANIMATIONS_def)
  have regq: "animationRegistry q = [(''b'', elem 1 ''b''), (''c'', elem 2 ''c''), (''d'', elem 3 ''d'')]"
    and pcq: "pause_calls q = [0]"
    by (simp_all add: q_def monitor_calls_def registerAnimation_def pauseAnimation_def
          new_page_def Let_def MAX_CONCURRENT_ANIMATIONS_def media_elem_def)
  have capp: "length (animationRegistry p) = MAX_CONCURRENT_ANIMATIONS"
    by (simp add: regp MAX_CONCURRENT_ANIMATIONS_def)
  have capq: "length (animationRegistry q) = MAX_CONCURRENT_ANIMATIONS"
    by (simp add: regq MAX_CONCURRENT_ANIMATIONS_def)
  have dist: "distinct (map fst [(''a'', elem 0 ''a''), (''b'', elem 1 ''b''), (''c'', elem 2 ''c''), (''d'', elem 3 ''d'')])"
    by simp
  note instp = animationRegistry_cap_fifo [OF p_def, of "''d''" "elem 3 ''d''"
      "[(''a'', elem 0 ''a''), (''b'', elem 1 ''b''), (''c'', elem 2 ''c''), (''d'', elem 3 ''d'')]"]
  note instq = animationRegistry_cap_fifo [OF q_def, of "''e''" "elem 4 ''e''" "[]"]
  have "animationRegistry (registerAnimation ''d'' (elem 3 ''d'') p) =
          AList.update ''d'' (elem 3 ''d'') (tl (animationRegistry p))"
    and "pause_calls (registerAnimation ''d'' (elem 3 ''d'') p) =
          pause_calls p @ (if has_pause (snd (hd (animationRegistry p)))
                           then [elem_id (snd (hd (animationRegistry p)))] else [])"
    using instp capp by blast+
  then have a: "map fst (animationRegistry (registerAnimation ''d'' (elem 3 ''d'') p)) = [''b'', ''c'', ''d'']"
    and a': "pause_calls (registerAnimation ''d'' (elem 3 ''d'') p) = [0]"
    by (simp_all add: regp pcp media_elem_def)
  have "animationRegistry (registerAnimation ''e'' (elem 4 ''e'') q) =
          AList.update ''e'' (elem 4 ''e'') (tl (animationRegistry q))"
    and "pause_calls (registerAnimation ''e'' (elem 4 ''e'') q) =
          pause_calls q @ (if has_pause (snd (hd (animationRegistry q)))
                           then [elem_id (snd (hd (animationRegistry q)))] else [])"
    using instq capq by blast+
  then have c: "map fst (animationRegistry (registerAnimation ''e'' (elem 4 ''e'') q)) = [''c'', ''d'', ''e'']"
    and c': "pause_calls (registerAnimation ''e'' (elem 4 ''e'') q) = [0]"
    by (simp_all add: regq pcq elem_def)
  have b: "map fst (animationRegistry (register_all
       [(''a'', elem 0 ''a''), (''b'', elem 1 ''b''), (''c'', elem 2 ''c''), (''d'', elem 3 ''d'')]
       (new_page 0 []))) = [''b'', ''c'', ''d'']"
    using instp dist by (simp add: MAX_CONCURRENT_ANIMATIONS_def)
  show ?thesis using capp capq a a' c c' dist b unfolding p_def q_def by blast
qed

text \<open>
  C4 as stated fails: three elements enter the viewport and are registered and set
  running; a fourth registration evicts the first of them, but nothing is paused: no
  \<open>pause\<close> call is made, since an element has no such method, and the play state of
  the evicted element is still \<open>running\<close>.
\<close>

theorem eviction_without_pause:
  "length (animationRegistry (visibility_callback
       [(elem 0 ''pulse-0'', True), (elem 1 ''pulse-1'', True), (elem 2 ''float-0'', True)]
       (new_page 0 []))) = MAX_CONCURRENT_ANIMATIONS
   \<and> map fst (animationRegistry (registerAnimation ''d'' (elem 3 ''d'') (visibility_callback
       [(elem 0 ''pulse-0'', True), (elem 1 ''pulse-1'', True), (elem 2 ''float-0'', True)]
       (new_page 0 [])))) = [''pulse-1'', ''float-0'', ''d'']
   \<and> pause_calls (registerAnimation ''d'' (elem 3 ''d'') (visibility_callback
       [(elem 0 ''pulse-0'', True), (elem 1 ''pulse-1'', True), (elem 2 ''float-0'', True)]
       (new_page 0 []))) = []
   \<and> animationPlayState (registerAnimation ''d'' (elem 3 ''d'') (visibility_callback
       [(elem 0 ''pulse-0'', True), (elem 1 ''pulse-1'', True), (elem 2 ''float-0'', True)]
       (new_page 0 []))) 0 = Some ''running''"
  by (simp add: visibility_callback_def AnimationManager_resumeAnimation_def
        registerAnimation_def pauseAnimation_def new_page_def elem_def Let_def
        MAX_CONCURRENT_ANIMATIONS_def)

section \<open>Visibility-gated animation toggler\<close>

text \<open>
  C5, evaluated on the code. Three elements enter the viewport and are registered; the
  first leaves and is paused, which leaves two entries in the registry; the first
  enters again. The request is dropped: the element stays paused and unregistered,
  because \<open>pauseAnimation\<close> does not lower \<open>metrics_animationsRunning\<close>, which is
  still 3.
\<close>

theorem resumeAnimation_stale_budget:
  "length (animationRegistry
      (visibility_callback [(elem 0 ''pulse-0'', False)]
        (visibility_callback
           [(elem 0 ''pulse-0'', True), (elem 1 ''pulse-1'', True), (elem 2 ''float-0'', True)]
           (new_page 0 [])))) = 2
   \<and> metrics_animationsRunning
       (visibility_callback [(elem 0 ''pulse-0'', False)]
         (visibility_callback
            [(elem 0 ''pulse-0'', True), (elem 1 ''pulse-1'', True), (elem 2 ''float-0'', True)]
            (new_page 0 []))) = 3
   \<and> animationPlayState
       (visibility_callback [(elem 0 ''pulse-0'', True)]
         (visibility_callback [(elem 0 ''pulse-0'', False)]
           (visibility_callback
              [(elem 0 ''pulse-0'', True), (elem 1 ''pulse-1'', True), (elem 2 ''float-0'', True)]
              (new_page 0 [])))) 0 = Some ''paused''
   \<and> map fst (animationRegistry
       (visibility_callback [(elem 0 ''pulse-0'', True)]
         (visibility_callback [(elem 0 ''pulse-0'', False)]
           (visibility_callback
              [(elem 0 ''pulse-0'', True), (elem 1 ''pulse-1'', True), (elem 2 ''float-0'', True)]
              (new_page 0 []))))) = [''pulse-1'', ''float-0'']"
  by (simp add: visibility_callback_def AnimationManager_resumeAnimation_def
        AnimationManager_pauseAnimation_def registerAnimation_def pauseAnimation_def
        new_page_def elem_def Let_def MAX_CONCURRENT_ANIMATIONS_def)

section \<open>Iframe skeleton loader\<close>

lemma timers_setTimeout: "timers (setTimeout cb d now s) = timers s @ [(now + max 0 d, cb)]"
  by (simp add: setTimeout_def)

lemma timers_showErrorState: "timers (showErrorState s) = timers s"
  by (simp add: showErrorState_def split: option.split)

lemma timers_retryLoad: "timers (retryLoad s) = timers s"
  by (simp add: retryLoad_def Let_def split: option.split skeleton_view.split)

lemma timers_handleError:
  "timers (handleError now s) =
     timers s @ (if loadAttempts s + 1 < maxAttempts s then [(now + 2000, RetryLoad)] else [])"
  by (simp add: handleError_def Let_def timers_setTimeout timers_showErrorState)

lemma timers_handleLoad:
  "timers (handleLoad now s) =
     timers s @ [(now + max 0 (SKELETON_MIN_DISPLAY - (now - startTime s)), RemoveSkeleton)]"
  by (simp add: handleLoad_def Let_def timers_setTimeout)

lemma timers_removeSkeletonAndShowForm:
  "timers (removeSkeletonAndShowForm now s) =
     timers s @ (case skeleton s of None \<Rightarrow> [] | Some _ \<Rightarrow> [(now + 300, DetachSkeleton)])"
  by (simp add: removeSkeletonAndShowForm_def timers_setTimeout split: option.split)

lemma timers_init:
  "timers (init t0 doc) = [] \<or> timers (init t0 doc) = [(t0 + FORM_LOAD_TIMEOUT, LoadTimeout)]"
  by (simp add: init_def loadForm_def createSkeletonLoader_def new_loader_def Let_def
        setTimeout_def FORM_LOAD_TIMEOUT_def)

lemma find_due:
  assumes "find (\<lambda>t. snd t = cb \<and> fst t \<le> now) ts = Some t"
  shows "t \<in> set ts \<and> snd t = cb \<and> fst t \<le> now"
  using assms by (auto simp: find_Some_iff)

lemmas loader_defs =
  handleLoad_def handleError_def retryLoad_def showErrorState_def removeSkeletonAndShowForm_def
  setTimeout_def clearTimeout_def Let_def

lemma display_inv_init: "display_inv t0 (init t0 doc)"
  by (simp add: display_inv_def init_def loadForm_def createSkeletonLoader_def new_loader_def
        Let_def setTimeout_def)

lemma display_inv_step:
  assumes "display_inv t0 s"
  shows "display_inv t0 (step (now, ev) s)"
proof (cases ev)
  case IframeLoad
  then show ?thesis
    using assms by (auto simp: display_inv_def loader_defs)
next
  case IframeError
  then show ?thesis
    using assms by (auto simp: display_inv_def loader_defs split: option.splits)
next
  case (Timer cb)
  show ?thesis
  proof (cases "find (\<lambda>t. snd t = cb \<and> fst t \<le> now) (timers s)")
    case None
    then show ?thesis using assms Timer by simp
  next
    case (Some t)
    then have t: "t \<in> set (timers s)" "snd t = cb" "fst t \<le> now"
      using find_due [OF Some] by simp_all
    define s' where "s' = s\<lparr>timers := remove1 t (timers s)\<rparr>"
    have inv': "display_inv t0 s'"
      using assms by (auto simp: display_inv_def s'_def dest: notin_set_remove1)
    have due: "cb = RemoveSkeleton \<Longrightarrow> t0 + SKELETON_MIN_DISPLAY \<le> now"
      using assms t by (auto simp: display_inv_def)
    have "display_inv t0 (run_callback cb now s')"
    proof (cases cb)
      case LoadTimeout
      then show ?thesis using inv' by (auto simp: display_inv_def loader_defs split: option.splits)
    next
      case RemoveSkeleton
      then show ?thesis using inv' due
        by (auto simp: display_inv_def loader_defs split: option.splits)
    next
      case RetryLoad
      then show ?thesis using inv'
        by (auto simp: display_inv_def loader_defs split: option.splits skeleton_view.splits)
    next
      case DetachSkeleton
      then show ?thesis using inv' by (auto simp: display_inv_def)
    qed
    then show ?thesis using Timer Some by (simp add: s'_def)
  qed
qed

lemma display_inv_run: "display_inv t0 s \<Longrightarrow> display_inv t0 (run evs s)"
  unfolding run_def
proof (induction evs arbitrary: s)
  case Nil
  then show ?case by simp
next
  case (Cons e evs)
  obtain now ev where e: "e = (now, ev)" by (cases e)
  have "display_inv t0 (step e s)" unfolding e using Cons.prems by (rule display_inv_step)
  then show ?case using Cons.IH by simp
qed

lemma hide_not_before:
  assumes inv: "display_inv t0 s"
    and before: "skeleton_displayed s"
    and after: "\<not> skeleton_displayed (step (now, ev) s)"
  shows "t0 + SKELETON_MIN_DISPLAY \<le> now"
proof (cases ev)
  case IframeLoad
  then show ?thesis
    using before after by (auto simp: skeleton_displayed_def loader_defs split: if_splits)
next
  case IframeError
  then show ?thesis
    using before after by (auto simp: skeleton_displayed_def loader_defs split: if_splits)
next
  case (Timer cb)
  show ?thesis
  proof (cases "find (\<lambda>t. snd t = cb \<and> fst t \<le> now) (timers s)")
    case None
    then show ?thesis using before after Timer by simp
  next
    case (Some t)
    then have t: "t \<in> set (timers s)" "snd t = cb" "fst t \<le> now"
      using find_due [OF Some] by simp_all
    have due: "cb = RemoveSkeleton \<or> cb = DetachSkeleton \<Longrightarrow> t0 + SKELETON_MIN_DISPLAY \<le> now"
      using inv t by (auto simp: display_inv_def)
    show ?thesis
    proof (cases cb)
      case LoadTimeout
      then show ?thesis using before after Timer Some
        by (auto simp: skeleton_displayed_def loader_defs split: if_splits)
    next
      case RemoveSkeleton
      then show ?thesis using due by simp
    next
      case RetryLoad
      then show ?thesis using before after Timer Some
        by (auto simp: skeleton_displayed_def loader_defs split: if_splits skeleton_view.splits)
    next
      case DetachSkeleton
      then show ?thesis using due by simp
    qed
  qed
qed

text \<open>
  C3. In every state the loader reaches after \<open>init\<close> at time \<open>t0\<close>: an event that
  takes the displayed skeleton away (fades it out or detaches it) happens at
  \<open>t0 + SKELETON_MIN_DISPLAY\<close> or later; a load event at \<open>now\<close> schedules the removal
  with the delay \<open>max 0 (SKELETON_MIN_DISPLAY - (now - startTime))\<close>; and the start time
  the listeners use is \<open>t0\<close>.
\<close>

theorem skeleton_min_display:
  assumes "s = run evs (init t0 doc)"
  shows "(skeleton_displayed s \<and> \<not> skeleton_displayed (step (now, ev) s) \<longrightarrow>
            t0 + SKELETON_MIN_DISPLAY \<le> now)
       \<and> timers (handleLoad now s) =
            timers s @ [(now + max 0 (SKELETON_MIN_DISPLAY - (now - startTime s)), RemoveSkeleton)]
       \<and> (listening s \<longrightarrow> startTime s = t0)"
proof -
  have inv: "display_inv t0 s"
    unfolding assms by (rule display_inv_run [OF display_inv_init])
  have a: "t0 + SKELETON_MIN_DISPLAY \<le> now"
    if "skeleton_displayed s" "\<not> skeleton_displayed (step (now, ev) s)"
    using inv that by (rule hide_not_before)
  have c: "startTime s = t0" if "listening s"
    using inv that by (simp add: display_inv_def)
  from a c timers_handleLoad show ?thesis by blast
qed

theorem skeleton_min_display_witness:
  "skeleton_displayed (run [(0, IframeLoad)] (init 0 form_page))
   \<and> \<not> skeleton_displayed (step (800, Timer RemoveSkeleton) (run [(0, IframeLoad)] (init 0 form_page)))
   \<and> 0 + SKELETON_MIN_DISPLAY \<le> 800
   \<and> timers (run [(0, IframeLoad)] (init 0 form_page)) = [(800, RemoveSkeleton)]
   \<and> listening (init 0 form_page) \<and> startTime (init 0 form_page) = 0"
proof -
  have s0: "init 0 form_page = run [] (init 0 form_page)" by (simp add: run_def)
  have i: "init 0 form_page =
      new_loader\<lparr>formContainer := True, iframe := True, iframe_shown := False,
        skeleton := Some LoadingText, listening := True,
        timers := [(10000, LoadTimeout)]\<rparr>"
    by (simp add: init_def form_page_def loadForm_def createSkeletonLoader_def new_loader_def
          Let_def setTimeout_def FORM_LOAD_TIMEOUT_def)
  have l: "listening (init 0 form_page)" by (simp add: i)
  have tm: "timers (run [(0, IframeLoad)] (init 0 form_page)) = [(800, RemoveSkeleton)]"
    using skeleton_min_display [where now = 0 and ev = IframeLoad, OF s0]
    by (simp add: run_def l i handleLoad_def clearTimeout_def setTimeout_def Let_def
          new_loader_def SKELETON_MIN_DISPLAY_def)
  have d1: "skeleton_displayed (run [(0, IframeLoad)] (init 0 form_page))"
    by (simp add: run_def i skeleton_displayed_def handleLoad_def clearTimeout_def setTimeout_def
          Let_def new_loader_def)
  have d2: "\<not> skeleton_displayed (step (800, Timer RemoveSkeleton) (run [(0, IframeLoad)] (init 0 form_page)))"
    by (simp add: run_def i skeleton_displayed_def handleLoad_def clearTimeout_def setTimeout_def
          removeSkeletonAndShowForm_def Let_def new_loader_def SKELETON_MIN_DISPLAY_def)
  have "0 + SKELETON_MIN_DISPLAY \<le> 800"
    using skeleton_min_display [where evs = "[(0, IframeLoad)]" and ?t0.0 = 0 and doc = form_page
        and now = 800 and ev = "Timer RemoveSkeleton", OF refl] d1 d2
    by blast
  moreover have "startTime (init 0 form_page) = 0"
    using skeleton_min_display [where now = 0 and ev = IframeLoad, OF s0] l by blast
  ultimately show ?thesis using d1 d2 tm l by blast
qed








lemma pending_timeouts_step:
  "pending_timeouts (step e s) = pending_timeouts s
   \<or> pending_timeouts (step e s) = []
   \<or> (\<exists>t. pending_timeouts (step e s) = remove1 t (pending_timeouts s))"
proof -
  obtain now ev where e: "e = (now, ev)" by (cases e)
  show ?thesis
  proof (cases ev)
    case IframeLoad
    then show ?thesis unfolding e by (simp add: pending_timeouts_def loader_defs)
  next
    case IframeError
    then show ?thesis
      unfolding e
      by (simp add: pending_timeouts_def timers_handleError)
  next
    case (Timer cb)
    show ?thesis
    proof (cases "find (\<lambda>t. snd t = cb \<and> fst t \<le> now) (timers s)")
      case None
      then show ?thesis using Timer e by simp
    next
      case (Some t)
      define s' where "s' = s\<lparr>timers := remove1 t (timers s)\<rparr>"
      have 1: "pending_timeouts s' = remove1 t (pending_timeouts s)"
        by (simp add: pending_timeouts_def s'_def filter_remove1)
      have 2: "pending_timeouts (run_callback cb now s') = pending_timeouts s'"
        by (cases cb)
           (simp_all add: pending_timeouts_def timers_handleError timers_retryLoad
              timers_removeSkeletonAndShowForm split: option.split)
      have "step e s = run_callback cb now s'"
        using Timer Some e by (simp add: s'_def)
      then have "pending_timeouts (step e s) = remove1 t (pending_timeouts s)"
        using 1 2 by simp
      then show ?thesis by blast
    qed
  qed
qed

lemma pending_timeouts_single_step:
  assumes "pending_timeouts s = [] \<or> pending_timeouts s = [x]"
  shows "pending_timeouts (step e s) = [] \<or> pending_timeouts (step e s) = [x]"
  using pending_timeouts_step [of e s] assms by (auto split: if_splits)

lemma pending_timeouts_none_step:
  assumes "pending_timeouts s = []"
  shows "pending_timeouts (step e s) = []"
  using pending_timeouts_step [of e s] assms by auto

lemma pending_timeouts_single_run:
  assumes "pending_timeouts s = [] \<or> pending_timeouts s = [x]"
  shows "pending_timeouts (run evs s) = [] \<or> pending_timeouts (run evs s) = [x]"
  using assms unfolding run_def
proof (induction evs arbitrary: s)
  case Nil
  then show ?case by simp
next
  case (Cons e evs)
  from pending_timeouts_single_step [OF Cons.prems] Cons.IH show ?case by simp
qed

lemma pending_timeouts_none_run:
  assumes "pending_timeouts s = []"
  shows "pending_timeouts (run evs s) = []"
  using assms unfolding run_def
proof (induction evs arbitrary: s)
  case Nil
  then show ?case by simp
next
  case (Cons e evs)
  from pending_timeouts_none_step [OF Cons.prems] Cons.IH show ?case by simp
qed

lemma pending_timeouts_init:
  "pending_timeouts (init t0 doc) = []
   \<or> pending_timeouts (init t0 doc) = [(t0 + FORM_LOAD_TIMEOUT, LoadTimeout)]"
  using timers_init [of t0 doc] by (auto simp: pending_timeouts_def)

text \<open>
  C6, as amended. The load timeout is one deadline for all attempts: in every state
  the loader reaches after \<open>init\<close> at time \<open>t0\<close>, the only load-timeout timer that can be
  pending is the one armed by \<open>loadForm\<close>, due at \<open>t0 + FORM_LOAD_TIMEOUT\<close>; a retry arms
  none; and once none is pending, none is pending ever after.
\<close>

theorem load_timeout_single_deadline:
  assumes "s = run evs (init t0 doc)"
  shows "(pending_timeouts s = [] \<or> pending_timeouts s = [(t0 + FORM_LOAD_TIMEOUT, LoadTimeout)])
       \<and> timers (retryLoad s) = timers s
       \<and> (pending_timeouts s = [] \<longrightarrow> pending_timeouts (run evs' s) = [])"
proof -
  have "pending_timeouts s = [] \<or> pending_timeouts s = [(t0 + FORM_LOAD_TIMEOUT, LoadTimeout)]"
    unfolding assms by (rule pending_timeouts_single_run [OF pending_timeouts_init])
  moreover have "pending_timeouts (run evs' s) = []" if "pending_timeouts s = []"
    using that by (rule pending_timeouts_none_run)
  ultimately show ?thesis using timers_retryLoad by blast
qed

theorem load_timeout_single_deadline_witness:
  "pending_timeouts (run [(10000, Timer LoadTimeout)] (init 0 form_page)) = []
   \<and> pending_timeouts (run [(12000, Timer RetryLoad), (20000, IframeError)]
        (run [(10000, Timer LoadTimeout)] (init 0 form_page))) = []
   \<and> timers (retryLoad (run [(10000, Timer LoadTimeout)] (init 0 form_page))) = [(12000, RetryLoad)]"
proof -
  have t: "timers (run [(10000, Timer LoadTimeout)] (init 0 form_page)) = [(12000, RetryLoad)]"
    by (simp add: init_def form_page_def loadForm_def createSkeletonLoader_def new_loader_def
          FORM_LOAD_TIMEOUT_def run_def loader_defs)
  then have p: "pending_timeouts (run [(10000, Timer LoadTimeout)] (init 0 form_page)) = []"
    by (simp add: pending_timeouts_def)
  show ?thesis
    using load_timeout_single_deadline [OF refl, of "[(10000, Timer LoadTimeout)]" 0 form_page
        "[(12000, Timer RetryLoad), (20000, IframeError)]"] p t
    by simp
qed

text \<open>
  C6 as stated fails: the first attempt times out at 10000 and the retry runs at 12000;
  the retry has started a new load (the source has been assigned once), and no
  load-timeout timer is pending for it.
\<close>

theorem retry_has_no_deadline:
  "pending_timeouts (run [(10000, Timer LoadTimeout), (12000, Timer RetryLoad)] (init 0 form_page)) = []
   \<and> src_assignments (run [(10000, Timer LoadTimeout), (12000, Timer RetryLoad)] (init 0 form_page)) = 1
   \<and> timers (run [(10000, Timer LoadTimeout), (12000, Timer RetryLoad)] (init 0 form_page)) = []"
  by (simp add: init_def form_page_def loadForm_def createSkeletonLoader_def new_loader_def
        FORM_LOAD_TIMEOUT_def run_def loader_defs pending_timeouts_def)

section \<open>Stagger-on-reveal scroll animator\<close>

lemma animatedElements_observer_callback:
  "animatedElements (observer_callback idx es s) = animatedElements s"
  by (induction idx es s rule: observer_callback.induct) simp_all










section \<open>Form messages and notifications\<close>

lemma String_includes_sublist: "String_includes s sub = sublist sub s"
  by (induction s) (simp_all add: sublist_Cons_right)

lemma class_tokens_notification:
  "class_tokens [] (''notification notification-'' @ ty) =
     ''notification'' # class_tokens [] (''notification-'' @ ty)"
  by (simp add: is_ascii_whitespace_def)

lemma new_notification_has_class:
  "has_class ''notification'' (Element i (''notification notification-'' @ ty) ks)"
  unfolding has_class_def by (simp only: className.simps class_tokens_notification) simp

lemma elements_of_append: "elements_of (f @ g) = elements_of f @ elements_of g"
  by (induction f rule: elements_of.induct) simp_all

lemma has_class_children: "has_class cls (Element i c ks) \<longleftrightarrow> has_class cls (Element i c ks')"
  by (simp add: has_class_def)

lemma count_detach_le:
  assumes "\<And>i c ks ks'. P (Element i c ks) \<longleftrightarrow> P (Element i c ks')"
  shows "length (filter P (elements_of (detach i f))) \<le> length (filter P (elements_of f))"
proof (induction i f rule: detach.induct)
  case (1 i)
  then show ?case by simp
next
  case (2 i t ns)
  then show ?case by simp
next
  case (3 i j c ks ns)
  have "P (Element j c (detach i ks)) \<longleftrightarrow> P (Element j c ks)" by (rule assms)
  with 3 show ?case by auto
qed

lemma count_remove_first:
  assumes "list_ex P (elements_of f)"
    and "\<And>i c ks ks'. P (Element i c ks) \<longleftrightarrow> P (Element i c ks')"
  shows "length (filter P (elements_of (remove_first P f))) < length (filter P (elements_of f))"
  using assms
proof (induction P f rule: remove_first.induct)
  case (1 P)
  then show ?case by simp
next
  case (2 P t ns)
  then show ?case by simp
next
  case (3 P i c ks ns)
  show ?case
  proof (cases "P (Element i c ks)")
    case True
    then show ?thesis by simp
  next
    case False
    then have self: "\<not> P (Element i c (remove_first P ks))"
      using "3.prems"(2) by blast
    show ?thesis
    proof (cases "list_ex P (elements_of ks)")
      case True
      with "3.IH"(1) False "3.prems"(2)
      have "length (filter P (elements_of (remove_first P ks))) < length (filter P (elements_of ks))"
        by blast
      then show ?thesis using False True self by simp
    next
      case nks: False
      then have "list_ex P (elements_of ns)"
        using "3.prems"(1) False by (auto simp: list_ex_iff)
      with "3.IH"(2) False nks "3.prems"(2)
      have "length (filter P (elements_of (remove_first P ns))) < length (filter P (elements_of ns))"
        by blast
      then show ?thesis using False nks by simp
    qed
  qed
qed

lemma notification_count_remove_node:
  "notification_count (remove_node i d) \<le> notification_count d"
proof -
  have "length (filter (has_class ''notification'') (elements_of (detach i (elements d))))
          \<le> length (filter (has_class ''notification'') (elements_of (elements d)))"
    using has_class_children by (rule count_detach_le)
  then show ?thesis by (simp add: notification_count_def remove_node_def)
qed

lemma elements_showNotification:
  "elements (showNotification content t d) =
     (case find (has_class ''notification'') (elements_of (elements d)) of
        None \<Rightarrow> elements d
      | Some e \<Rightarrow> remove_first (has_class ''notification'') (elements d))
     @ [Element (Some (next_node d))
          (''notification notification-'' @ (case t of None \<Rightarrow> ''info'' | Some x \<Rightarrow> x)) content]"
  by (simp add: showNotification_def Let_def split: option.split)

lemma showNotification_single:
  assumes "notification_count d \<le> 1" "unmarked content"
  shows "filter (has_class ''notification'') (elements_of (elements (showNotification content t d)))
           = [last (elements (showNotification content t d))]"
proof -
  define rest where "rest = (case find (has_class ''notification'') (elements_of (elements d)) of
        None \<Rightarrow> elements d
      | Some e \<Rightarrow> remove_first (has_class ''notification'') (elements d))"
  define n where "n = Element (Some (next_node d))
          (''notification notification-'' @ (case t of None \<Rightarrow> ''info'' | Some x \<Rightarrow> x)) content"
  have el: "elements (showNotification content t d) = rest @ [n]"
    by (simp add: elements_showNotification rest_def n_def)
  have "filter (has_class ''notification'') (elements_of rest) = []"
  proof (cases "find (has_class ''notification'') (elements_of (elements d))")
    case None
    then have "rest = elements d" by (simp add: rest_def)
    moreover have "filter (has_class ''notification'') (elements_of (elements d)) = []"
      using None by (auto simp: find_None_iff filter_empty_conv)
    ultimately show ?thesis by simp
  next
    case (Some e)
    then have "list_ex (has_class ''notification'') (elements_of (elements d))"
      by (auto simp: find_Some_iff list_ex_iff)
    then have lt: "length (filter (has_class ''notification'')
                  (elements_of (remove_first (has_class ''notification'') (elements d))))
               < length (filter (has_class ''notification'') (elements_of (elements d)))"
      using has_class_children by (rule count_remove_first)
    have le: "length (filter (has_class ''notification'') (elements_of (elements d))) \<le> 1"
      using assms(1) by (simp add: notification_count_def)
    from lt le have "length (filter (has_class ''notification'')
                  (elements_of (remove_first (has_class ''notification'') (elements d)))) = 0"
      by linarith
    then have "filter (has_class ''notification'')
                  (elements_of (remove_first (has_class ''notification'') (elements d))) = []"
      by simp
    then show ?thesis using Some by (simp add: rest_def)
  qed
  moreover have "has_class ''notification'' n"
    unfolding n_def by (rule new_notification_has_class)
  moreover have "elements_of [n] = n # elements_of content"
    by (simp add: n_def)
  ultimately have "filter (has_class ''notification'') (elements_of (rest @ [n])) = [n]"
    using assms(2) by (simp add: elements_of_append unmarked_def)
  then show ?thesis by (simp add: el)
qed

lemma notification_count_showNotification:
  assumes "notification_count d \<le> 1" "unmarked content"
  shows "notification_count (showNotification content t d) = 1"
  using showNotification_single [OF assms, of t] by (simp add: notification_count_def)

lemma notification_count_step:
  assumes "notification_count d \<le> 1" "unmarked_event ev"
  shows "notification_count (notification_step ev d) \<le> 1"
proof (cases ev)
  case (Show content t)
  then show ?thesis using notification_count_showNotification [of d content t] assms by simp
next
  case (RemoveTimeout i)
  then show ?thesis using assms by (simp add: notification_count_def)
next
  case (SlideOutDone i)
  have "notification_count (remove_node i (d\<lparr>slideOutTimeouts := remove1 i (slideOutTimeouts d)\<rparr>))
          \<le> notification_count (d\<lparr>slideOutTimeouts := remove1 i (slideOutTimeouts d)\<rparr>)"
    by (rule notification_count_remove_node)
  then show ?thesis using assms SlideOutDone by (simp add: notification_count_def)
next
  case (Click i)
  have "notification_count (remove_node i (d\<lparr>removeTimeouts := removeAll i (removeTimeouts d)\<rparr>))
          \<le> notification_count (d\<lparr>removeTimeouts := removeAll i (removeTimeouts d)\<rparr>)"
    by (rule notification_count_remove_node)
  then show ?thesis using assms Click by (simp add: notification_count_def)
qed

lemma notification_count_run:
  assumes "notification_count d \<le> 1" "list_all unmarked_event evs"
  shows "notification_count (notification_run evs d) \<le> 1"
  using assms unfolding notification_run_def
proof (induction evs arbitrary: d)
  case Nil
  then show ?case by simp
next
  case (Cons ev evs)
  have "notification_count (notification_step ev d) \<le> 1"
    using Cons.prems notification_count_step [of d ev] by simp
  then show ?case using Cons.IH Cons.prems(2) by simp
qed

lemma unmarked_plain_content: "unmarked (plain_content ty text)"
  by (simp add: unmarked_def plain_content_def notification_content_def indent_def icon_def
        shape_def has_class_def)

text \<open>
  C9, as amended. In a document that starts with at most one \<^verbatim>\<open>.notification\<close>
  element, as long as the markup of no notification makes an element of that class:
  at most one such element exists after every sequence of \<open>showNotification\<close> calls,
  timeouts and clicks; and directly after a call of \<open>showNotification\<close>, whatever its
  type, exactly one exists, the new one, which is the last child of the body. The
  markup of a message without markup characters makes no such element.
\<close>

theorem single_notification:
  assumes "notification_count d \<le> 1"
    and "list_all unmarked_event evs"
    and "unmarked content"
  shows "notification_count (notification_run evs d) \<le> 1
       \<and> notification_count (showNotification content t (notification_run evs d)) = 1
       \<and> filter (has_class ''notification'')
            (elements_of (elements (showNotification content t (notification_run evs d))))
           = [last (elements (showNotification content t (notification_run evs d)))]
       \<and> unmarked (plain_content ty text)"
proof -
  have r: "notification_count (notification_run evs d) \<le> 1"
    using assms(1,2) by (rule notification_count_run)
  from r notification_count_showNotification [OF r assms(3)]
       showNotification_single [OF r assms(3)] unmarked_plain_content
  show ?thesis by blast
qed

theorem single_notification_witness:
  "notification_count (empty_document False) \<le> 1
   \<and> list_all unmarked_event [Show (plain_content ''info'' ''a'') None,
                              Show (plain_content ''error'' ''b'') (Some ''error''), RemoveTimeout 1]
   \<and> unmarked (plain_content ''x y'' ''c'')
   \<and> notification_count (notification_run
        [Show (plain_content ''info'' ''a'') None,
         Show (plain_content ''error'' ''b'') (Some ''error''), RemoveTimeout 1]
        (empty_document False)) \<le> 1
   \<and> map className (elements (showNotification (plain_content ''x y'' ''c'') (Some ''x y'')
        (notification_run
           [Show (plain_content ''info'' ''a'') None,
            Show (plain_content ''error'' ''b'') (Some ''error''), RemoveTimeout 1]
           (empty_document False))))
      = [''notification notification-x y'']
   \<and> notification_count (showNotification (plain_content ''x y'' ''c'') (Some ''x y'')
        (notification_run
           [Show (plain_content ''info'' ''a'') None,
            Show (plain_content ''error'' ''b'') (Some ''error''), RemoveTimeout 1]
           (empty_document False))) = 1"
proof -
  have z: "notification_count (empty_document False) \<le> 1"
    by (simp add: notification_count_def empty_document_def)
  have u: "list_all unmarked_event [Show (plain_content ''info'' ''a'') None,
                              Show (plain_content ''error'' ''b'') (Some ''error''), RemoveTimeout 1]"
    by (simp add: unmarked_plain_content)
  have c: "unmarked (plain_content ''x y'' ''c'')"
    by (rule unmarked_plain_content)
  have e: "map className (elements (showNotification (plain_content ''x y'' ''c'') (Some ''x y'')
        (notification_run
           [Show (plain_content ''info'' ''a'') None,
            Show (plain_content ''error'' ''b'') (Some ''error''), RemoveTimeout 1]
           (empty_document False))))
      = [''notification notification-x y'']"
    by (simp add: notification_run_def showNotification_def empty_document_def Let_def
          has_class_def is_ascii_whitespace_def)
  show ?thesis
    using single_notification [OF z u c, of "Some ''x y''"] z u c e by simp
qed

text \<open>
  C9 as stated fails: the message \<^verbatim>\<open><i class=notification>x</i>\<close> parses to an
  element of the class \<^verbatim>\<open>notification\<close>; after one call of \<open>showNotification\<close> with
  it on an empty document, two elements of that class exist.
\<close>

theorem two_notifications:
  "notification_count
     (showNotification
        (notification_content ''info'' [Element None ''notification'' [TextNode ''x'']])
        None (empty_document False)) = 2"
  by (simp add: notification_count_def showNotification_def empty_document_def Let_def
        notification_content_def indent_def icon_def shape_def has_class_def
        is_ascii_whitespace_def)

text \<open>
  C8. The message handler changes something only when the origin contains
  \<open>TRUSTED_ORIGIN\<close> and the data is truthy with the type \<^verbatim>\<open>form-submitted\<close>. Then it
  shows the success notification with the form message, and it adds one call to the
  analytics function exactly when that function is defined. In every other case the
  document and the analytics calls are as before.
\<close>

theorem handleFormMessage_effects:
  "(sublist TRUSTED_ORIGIN (origin ev) \<and> data ev = Truthy (Some ''form-submitted'') \<longrightarrow>
      handleFormMessage ev d =
        (showNotification (plain_content ''success'' FORM_MESSAGE) (Some ''success'') d)
          \<lparr>gtag_calls := gtag_calls d @ (if gtag_defined d then [FORM_SUBMIT_CALL] else [])\<rparr>
      \<and> last (elements (handleFormMessage ev d)) =
          Element (Some (next_node d)) ''notification notification-success''
            (plain_content ''success'' FORM_MESSAGE))
   \<and> (\<not> (sublist TRUSTED_ORIGIN (origin ev) \<and> data ev = Truthy (Some ''form-submitted'')) \<longrightarrow>
      handleFormMessage ev d = d)"
  by (auto simp: handleFormMessage_def String_includes_sublist showNotification_def Let_def
        split: option.splits)

theorem handleFormMessage_effects_witness:
  "sublist TRUSTED_ORIGIN (origin submitted_event)
   \<and> data submitted_event = Truthy (Some ''form-submitted'')
   \<and> map className (elements (handleFormMessage submitted_event (empty_document True)))
       = [''notification notification-success'']
   \<and> gtag_calls (handleFormMessage submitted_event (empty_document True)) = [FORM_SUBMIT_CALL]
   \<and> gtag_calls (handleFormMessage submitted_event (empty_document False)) = []
   \<and> \<not> sublist TRUSTED_ORIGIN (origin (submitted_event\<lparr>origin := ''https://example.com''\<rparr>))
   \<and> handleFormMessage (submitted_event\<lparr>origin := ''https://example.com''\<rparr>) (empty_document True)
       = empty_document True"
proof -
  have o: "sublist TRUSTED_ORIGIN (origin submitted_event)"
    unfolding String_includes_sublist [symmetric]
    by (simp add: TRUSTED_ORIGIN_def submitted_event_def)
  have n: "\<not> sublist TRUSTED_ORIGIN (origin (submitted_event\<lparr>origin := ''https://example.com''\<rparr>))"
    unfolding String_includes_sublist [symmetric]
    by (simp add: TRUSTED_ORIGIN_def submitted_event_def)
  have t: "data submitted_event = Truthy (Some ''form-submitted'')"
    by (simp add: submitted_event_def)
  have 1: "handleFormMessage submitted_event (empty_document True) =
        (showNotification (plain_content ''success'' FORM_MESSAGE) (Some ''success'') (empty_document True))
          \<lparr>gtag_calls := gtag_calls (empty_document True) @
              (if gtag_defined (empty_document True) then [FORM_SUBMIT_CALL] else [])\<rparr>"
    using handleFormMessage_effects [of submitted_event "empty_document True"] o t by blast
  have 2: "handleFormMessage submitted_event (empty_document False) =
        (showNotification (plain_content ''success'' FORM_MESSAGE) (Some ''success'') (empty_document False))
          \<lparr>gtag_calls := gtag_calls (empty_document False) @
              (if gtag_defined (empty_document False) then [FORM_SUBMIT_CALL] else [])\<rparr>"
    using handleFormMessage_effects [of submitted_event "empty_document False"] o t by blast
  have 3: "handleFormMessage (submitted_event\<lparr>origin := ''https://example.com''\<rparr>) (empty_document True)
       = empty_document True"
    using handleFormMessage_effects [of "submitted_event\<lparr>origin := ''https://example.com''\<rparr>"
        "empty_document True"] n by blast
  show ?thesis
    using o n t 3 unfolding 1 2
    by (simp add: showNotification_def empty_document_def Let_def)
qed

end
